theory Spec2Isabelle
  imports Main "HOL-Library.Word"
begin

section \<open>Go strings as byte lists\<close>

text \<open>
  A Go \<^verbatim>\<open>string\<close> is a sequence of bytes, modelled as \<^typ>\<open>string\<close> (a list of
  \<^typ>\<open>char\<close>). The functions of package \<^verbatim>\<open>strings\<close> that the client calls are
  written out below. Every pattern and separator the client passes to them is a single ASCII
  byte, so \<^verbatim>\<open>ReplaceAll\<close> and \<^verbatim>\<open>Split\<close> take that byte as a \<^typ>\<open>char\<close>.
\<close>

abbreviation dquote :: char where "dquote \<equiv> CHR 0x22"
abbreviation bslash :: char where "bslash \<equiv> CHR 0x5C"
abbreviation space :: char where "space \<equiv> CHR 0x20"
abbreviation tab :: char where "tab \<equiv> CHR 0x09"
abbreviation LF :: char where "LF \<equiv> CHR 0x0A"
abbreviation CR :: char where "CR \<equiv> CHR 0x0D"

text \<open>\<^verbatim>\<open>strings.ContainsAny(s, chars)\<close>, for \<^verbatim>\<open>chars\<close> made of ASCII bytes.\<close>

definition ContainsAny :: "string \<Rightarrow> string \<Rightarrow> bool" where
  "ContainsAny s chars = list_ex (\<lambda>c. c \<in> set chars) s"

text \<open>\<^verbatim>\<open>strings.ReplaceAll(s, old, new)\<close> for a one-byte \<^verbatim>\<open>old\<close>.\<close>

fun ReplaceAll :: "string \<Rightarrow> char \<Rightarrow> string \<Rightarrow> string" where
  "ReplaceAll [] old new = []"
| "ReplaceAll (c # cs) old new =
     (if c = old then new @ ReplaceAll cs old new else c # ReplaceAll cs old new)"

text \<open>\<^verbatim>\<open>strings.HasPrefix\<close>, \<^verbatim>\<open>strings.TrimPrefix\<close> and \<^verbatim>\<open>strings.TrimSuffix\<close>.\<close>

definition HasPrefix :: "string \<Rightarrow> string \<Rightarrow> bool" where
  "HasPrefix s p = (take (length p) s = p)"

definition TrimPrefix :: "string \<Rightarrow> string \<Rightarrow> string" where
  "TrimPrefix s p = (if HasPrefix s p then drop (length p) s else s)"

definition HasSuffix :: "string \<Rightarrow> string \<Rightarrow> bool" where
  "HasSuffix s p = (length p \<le> length s \<and> drop (length s - length p) s = p)"

definition TrimSuffix :: "string \<Rightarrow> string \<Rightarrow> string" where
  "TrimSuffix s p = (if HasSuffix s p then take (length s - length p) s else s)"

text \<open>
  \<^verbatim>\<open>strings.Split(s, sep)\<close> for a one-byte separator: the pieces between the
  separators, in order; the result always has at least one element (\<^verbatim>\<open>[""]\<close> for the
  empty string).
\<close>

fun Split :: "string \<Rightarrow> char \<Rightarrow> string list" where
  "Split [] sep = [[]]"
| "Split (c # cs) sep =
     (if c = sep then [] # Split cs sep
      else (case Split cs sep of p # ps \<Rightarrow> (c # p) # ps | [] \<Rightarrow> [[c]]))"

text \<open>\<^verbatim>\<open>strings.Contains(s, substr)\<close> for a one-byte \<^verbatim>\<open>substr\<close>.\<close>

definition Contains :: "string \<Rightarrow> char \<Rightarrow> bool" where
  "Contains s c = (c \<in> set s)"

text \<open>\<^verbatim>\<open>strings.Trim(s, cutset)\<close>: the bytes of the cutset removed from both ends.\<close>

definition Trim :: "string \<Rightarrow> string \<Rightarrow> string" where
  "Trim s cutset =
     rev (dropWhile (\<lambda>c. c \<in> set cutset) (rev (dropWhile (\<lambda>c. c \<in> set cutset) s)))"

text \<open>
  \<^verbatim>\<open>strings.TrimSpace\<close>: white space removed from both ends. The six ASCII white-space
  bytes are modelled; this is what Go computes whenever the first and the last byte that
  remain are ASCII.
\<close>

definition is_space :: "char \<Rightarrow> bool" where
  "is_space c = (c \<in> {tab, LF, CHR 0x0B, CHR 0x0C, CR, space})"

definition TrimSpace :: "string \<Rightarrow> string" where
  "TrimSpace s = rev (dropWhile is_space (rev (dropWhile is_space s)))"

section \<open>Package \<^verbatim>\<open>strconv\<close>: decimal integers\<close>

datatype num_error = ErrSyntax | ErrRange

definition is_digit :: "char \<Rightarrow> bool" where
  "is_digit c = (c \<in> set ''0123456789'')"

definition digit_val :: "char \<Rightarrow> nat" where
  "digit_val c = of_char c - 48"

text \<open>
  The loop of \<^verbatim>\<open>strconv.ParseUint(s, 10, 64)\<close>, with the value read so far: a byte that
  is no digit is a syntax error; the value leaving 64 bits is a range error, found at the
  digit where it happens.
\<close>

fun ParseUint_loop :: "string \<Rightarrow> nat \<Rightarrow> num_error + nat" where
  "ParseUint_loop [] n = Inr n"
| "ParseUint_loop (c # cs) n =
     (if \<not> is_digit c then Inl ErrSyntax
      else if n \<ge> (2 ^ 64 - 1) div 10 + 1 then Inl ErrRange
      else (let n1 = n * 10 + digit_val c
            in if n1 > 2 ^ 64 - 1 then Inl ErrRange else ParseUint_loop cs n1))"

definition ParseUint :: "string \<Rightarrow> num_error + nat" where
  "ParseUint s = (if s = [] then Inl ErrSyntax else ParseUint_loop s 0)"

text \<open>
  \<^verbatim>\<open>strconv.ParseInt(s, 10, 64)\<close>: an optional sign, then \<^verbatim>\<open>ParseUint\<close>; the result
  must lie in \<open>-2^63 .. 2^63 - 1\<close>.
\<close>

definition ParseInt :: "string \<Rightarrow> num_error + int" where
  "ParseInt s =
     (case s of
        [] \<Rightarrow> Inl ErrSyntax
      | c # r \<Rightarrow>
         (let neg = (c = CHR ''-'');
              t = (if c = CHR ''+'' \<or> c = CHR ''-'' then r else s)
          in case ParseUint t of
               Inl ErrSyntax \<Rightarrow> Inl ErrSyntax
             | Inl ErrRange \<Rightarrow> Inl ErrRange
             | Inr un \<Rightarrow>
                 if \<not> neg \<and> un \<ge> 2 ^ 63 then Inl ErrRange
                 else if neg \<and> un > 2 ^ 63 then Inl ErrRange
                 else Inr (if neg then - int un else int un)))"

text \<open>\<^verbatim>\<open>strconv.Atoi\<close> on a 64-bit platform, where \<^verbatim>\<open>int\<close> has 64 bits.\<close>

definition Atoi :: "string \<Rightarrow> num_error + int" where
  "Atoi s = ParseInt s"

section \<open>The numeric pattern\<close>

text \<open>
  \<^verbatim>\<open>numericRegex\<close> is \<^verbatim>\<open>^-?\d+(?:\.\d+)?$\<close>. In Go's syntax \<^verbatim>\<open>\d\<close> is an ASCII
  digit and, without the multi-line flag, \<^verbatim>\<open>$\<close> is the end of the text. The matcher is
  written from the three parts of the pattern: the optional sign \<^verbatim>\<open>-?\<close>, a run of one or
  more digits \<^verbatim>\<open>\d+\<close>, and the optional fraction \<^verbatim>\<open>\.\d+\<close>. Digits are no dots, so the
  first dot of the text, if there is one, is the dot of the pattern.
\<close>

definition strip_sign :: "string \<Rightarrow> string" where
  "strip_sign s = (case s of [] \<Rightarrow> [] | c # r \<Rightarrow> if c = CHR ''-'' then r else s)"

definition digits1 :: "string \<Rightarrow> bool" where
  "digits1 s = (s \<noteq> [] \<and> list_all is_digit s)"

definition decimal :: "string \<Rightarrow> bool" where
  "decimal t =
     (digits1 (takeWhile (\<lambda>c. c \<noteq> CHR ''.'') t) \<and>
      (case dropWhile (\<lambda>c. c \<noteq> CHR ''.'') t of [] \<Rightarrow> False | d # fr \<Rightarrow> digits1 fr))"

definition numericRegex_MatchString :: "string \<Rightarrow> bool" where
  "numericRegex_MatchString s = (let t = strip_sign s in digits1 t \<or> decimal t)"

text \<open>The two patterns of the specification, \<^verbatim>\<open>^-?\d+$\<close> and \<^verbatim>\<open>^-?\d+\.\d+$\<close>.\<close>

definition matches_integer :: "string \<Rightarrow> bool" where
  "matches_integer s = digits1 (strip_sign s)"

definition matches_float :: "string \<Rightarrow> bool" where
  "matches_float s = decimal (strip_sign s)"

section \<open>Name quoting (\<^verbatim>\<open>quoteName\<close>)\<close>

text \<open>
  \<^verbatim>\<open>quoteName\<close> quotes a name when it contains one of the five bytes of the literal
  \<^verbatim>\<open>" \t\n\r\""\<close>: backslashes are doubled first, then every double quote gets a
  backslash, and the result is wrapped in double quotes.
\<close>

definition quoteName :: "string \<Rightarrow> string" where
  "quoteName name =
     (if ContainsAny name [space, tab, LF, CR, dquote] then
        (let escaped = ReplaceAll name bslash [bslash, bslash];
             escaped = ReplaceAll escaped dquote [bslash, dquote]
         in [dquote] @ escaped @ [dquote])
      else name)"

subsection \<open>What the quoting is meant to produce\<close>

text \<open>
  The escaping each byte is meant to get: a backslash or a double quote is preceded by one
  backslash, any other byte stands for itself.
\<close>

definition escape_char :: "char \<Rightarrow> string" where
  "escape_char c = (if c = bslash \<or> c = dquote then [bslash, c] else [c])"

text \<open>
  The protocol's unquoting, following the spec's words: the wrapping double quotes are
  stripped if present, then, reading left to right, \<^verbatim>\<open>\\\<close> becomes a backslash and
  \<^verbatim>\<open>\"\<close> a double quote.
\<close>

definition strip_quotes :: "string \<Rightarrow> string" where
  "strip_quotes s =
     (if 2 \<le> length s \<and> hd s = dquote \<and> last s = dquote then butlast (tl s) else s)"

fun unescape :: "string \<Rightarrow> string" where
  "unescape (a # b # cs) =
     (if a = bslash \<and> (b = bslash \<or> b = dquote) then b # unescape cs
      else a # unescape (b # cs))"
| "unescape cs = cs"

definition protocol_unquote :: "string \<Rightarrow> string" where
  "protocol_unquote s = unescape (strip_quotes s)"

section \<open>Devices, variables and commands\<close>

text \<open>
  The value of a variable is an \<^verbatim>\<open>interface{}\<close> that holds a \<^verbatim>\<open>bool\<close>, an
  \<^verbatim>\<open>int64\<close>, a \<^verbatim>\<open>float64\<close> or a \<^verbatim>\<open>string\<close>. The type \<open>'f\<close> stands for
  \<^verbatim>\<open>float64\<close>, and \<^verbatim>\<open>strconv.ParseFloat(s, 64)\<close> is a parameter \<open>ParseFloat\<close> of the
  functions that call it.
\<close>

datatype 'f "value" = VBool bool | VInt int | VFloat 'f | VString string

record 'f Variable =
  Name :: string
  Value :: "'f value"
  Type :: string
  Description :: string
  Writeable :: bool
  MaximumLength :: int
  OriginalType :: string

record Command =
  cmd_Name :: string
  cmd_Description :: string

text \<open>
  The struct \<^verbatim>\<open>UPS\<close>. Its field \<^verbatim>\<open>nutClient\<close> is a pointer to the client; the
  functions below take the client instead: its method \<^verbatim>\<open>SendCommand\<close> as a function
  \<open>send\<close> from the command and the state of the client to the response lines, the error
  (if any) and the new state.
\<close>

record 'f UPS =
  ups_Name :: string
  ups_Description :: string
  Master :: bool
  NumberOfLogins :: int
  Clients :: "string list"
  Variables :: "'f Variable list"
  Commands :: "Command list"

type_synonym ('s, 'e) client = "string \<Rightarrow> 's \<Rightarrow> (string list \<times> 'e option) \<times> 's"

text \<open>
  The errors of the device functions: the error of \<^verbatim>\<open>SendCommand\<close>, passed on; the
  \<^verbatim>\<open>fmt.Errorf\<close> errors for an empty response and for a TYPE response of the wrong
  shape; the error of \<^verbatim>\<open>strconv.Atoi\<close>.
\<close>

datatype 'e error = ClientError 'e | EmptyResponse | InvalidTypeFormat | StrconvError num_error

text \<open>The slice expression \<^verbatim>\<open>xs[i:j]\<close>, for \<open>i \<le> j \<le> length xs\<close>.\<close>

definition slice :: "'a list \<Rightarrow> nat \<Rightarrow> nat \<Rightarrow> 'a list" where
  "slice xs i j = take (j - i) (drop i xs)"

definition GetVariableDescription ::
  "('s, 'e) client \<Rightarrow> 'f UPS \<Rightarrow> string \<Rightarrow> 's \<Rightarrow> (string \<times> 'e error option) \<times> 's" where
  "GetVariableDescription send u variableName s =
     (case send (''GET DESC '' @ quoteName (ups_Name u) @ '' '' @ quoteName variableName) s of
        ((resp, Some err), s') \<Rightarrow> (([], Some (ClientError err)), s')
      | ((resp, None), s') \<Rightarrow>
          if length resp < 1 then (([], Some EmptyResponse), s')
          else
            (let trimmedLine =
                   TrimPrefix (resp ! 0) (''DESC '' @ ups_Name u @ '' '' @ variableName @ '' '');
                 description = ReplaceAll trimmedLine dquote []
             in ((description, None), s')))"

text \<open>
  The end of \<^verbatim>\<open>GetVariableType\<close> (``Handle STRING:length format''): a type token that
  begins with \<^verbatim>\<open>STRING:\<close> is split at its colons into the base type and the maximum
  length, which \<^verbatim>\<open>strconv.Atoi\<close> must accept.
\<close>

definition STRING_length :: "string \<Rightarrow> bool \<Rightarrow> string \<times> bool \<times> int \<times> 'e error option" where
  "STRING_length varType writeable =
     (if HasPrefix varType ''STRING:'' then
        (let splitType = Split varType (CHR '':'')
         in if length splitType \<ge> 2 then
              (case Atoi (splitType ! 1) of
                 Inl err \<Rightarrow> (splitType ! 0, writeable, - 1, Some (StrconvError err))
               | Inr maximumLength \<Rightarrow> (splitType ! 0, writeable, maximumLength, None))
            else (varType, writeable, 0, None))
      else (varType, writeable, 0, None))"

text \<open>
  \<^verbatim>\<open>GetVariableType\<close> from its first response line on, in the variant that accepts a
  response with and without the \<^verbatim>\<open>RW\<close>/\<^verbatim>\<open>RO\<close> flag.
\<close>

definition GetVariableType_line ::
  "'f UPS \<Rightarrow> string \<Rightarrow> string \<Rightarrow> string \<times> bool \<times> int \<times> 'e error option" where
  "GetVariableType_line u variableName line =
     (let trimmedLine = TrimPrefix line (''TYPE '' @ ups_Name u @ '' '' @ variableName @ '' '');
          splitLine = Split trimmedLine space
      in if length splitLine < 1 then (''UNKNOWN'', False, - 1, Some InvalidTypeFormat)
         else if length splitLine \<ge> 2 \<and> (splitLine ! 0 = ''RW'' \<or> splitLine ! 0 = ''RO'') then
           STRING_length (splitLine ! 1) (splitLine ! 0 = ''RW'')
         else if length splitLine \<ge> 1 then STRING_length (splitLine ! 0) False
         else (''UNKNOWN'', False, - 1, Some InvalidTypeFormat))"

definition GetVariableType ::
  "('s, 'e) client \<Rightarrow> 'f UPS \<Rightarrow> string \<Rightarrow> 's
     \<Rightarrow> (string \<times> bool \<times> int \<times> 'e error option) \<times> 's" where
  "GetVariableType send u variableName s =
     (case send (''GET TYPE '' @ quoteName (ups_Name u) @ '' '' @ quoteName variableName) s of
        ((resp, Some err), s') \<Rightarrow> ((''UNKNOWN'', False, - 1, Some (ClientError err)), s')
      | ((resp, None), s') \<Rightarrow>
          if length resp < 1 then ((''UNKNOWN'', False, - 1, Some EmptyResponse), s')
          else (GetVariableType_line u variableName (resp ! 0), s'))"



text \<open>
  The type inference of \<^verbatim>\<open>GetVariables\<close> (its \<^verbatim>\<open>switch\<close> statement), on the variable
  built so far, whose \<^verbatim>\<open>Type\<close> is the type \<^verbatim>\<open>GetVariableType\<close> returned, and the raw
  value.
\<close>

definition GetVariables_infer ::
  "(string \<Rightarrow> num_error + 'f) \<Rightarrow> 'f Variable \<Rightarrow> string \<Rightarrow> string \<Rightarrow> 'f Variable" where
  "GetVariables_infer ParseFloat newVar raw varType =
     (if raw = ''enabled'' then
        newVar\<lparr>Value := VBool True, Type := ''BOOLEAN'', OriginalType := varType\<rparr>
      else if raw = ''disabled'' then
        newVar\<lparr>Value := VBool False, Type := ''BOOLEAN'', OriginalType := varType\<rparr>
      else
        (let matched = numericRegex_MatchString raw;
             newVar =
               (if matched then
                  (if Contains raw (CHR ''.'') then
                     (case ParseFloat raw of
                        Inr converted \<Rightarrow>
                          newVar\<lparr>Value := VFloat converted, Type := ''FLOAT_64'',
                            OriginalType := varType\<rparr>
                      | Inl err \<Rightarrow> newVar)
                   else
                     (case ParseInt raw of
                        Inr converted \<Rightarrow>
                          newVar\<lparr>Value := VInt converted, Type := ''INTEGER'',
                            OriginalType := varType\<rparr>
                      | Inl err \<Rightarrow> newVar))
                else newVar)
         in if Type newVar = varType then newVar\<lparr>Type := ''STRING'', OriginalType := varType\<rparr>
            else newVar))"

text \<open>
  One round of the loop of \<^verbatim>\<open>GetVariables\<close>: the line is skipped
  (\<^verbatim>\<open>continue\<close>), the function returns with an error, or a variable is appended.
\<close>

datatype ('f, 'e) entry = Skip | Abort "'e error" | Emit "'f Variable"

definition GetVariables_entry ::
  "(string \<Rightarrow> num_error + 'f) \<Rightarrow> ('s, 'e) client \<Rightarrow> 'f UPS \<Rightarrow> string \<Rightarrow> 's
     \<Rightarrow> ('f, 'e) entry \<times> 's" where
  "GetVariables_entry ParseFloat send u line s =
     (let offset = ''VAR '' @ ups_Name u @ '' '';
          cleanedLine = TrimPrefix line offset;
          splitLine = Split cleanedLine dquote
      in if length splitLine < 2 then (Skip, s)
         else
           (let raw = Trim (splitLine ! 1) '' '';
                name = TrimSuffix (splitLine ! 0) '' ''
            in case GetVariableDescription send u name s of
                 ((d, Some err), s1) \<Rightarrow> (Abort err, s1)
               | ((description, None), s1) \<Rightarrow>
                   (case GetVariableType send u name s1 of
                      ((t, w, m, Some err), s2) \<Rightarrow> (Abort err, s2)
                    | ((varType, writeable, maximumLength, None), s2) \<Rightarrow>
                        (Emit (GetVariables_infer ParseFloat
                                 \<lparr>Name = name, Value = VString raw, Type = varType,
                                  Description = description, Writeable = writeable,
                                  MaximumLength = maximumLength, OriginalType = []\<rparr>
                                 raw varType), s2))))"

fun GetVariables_loop ::
  "(string \<Rightarrow> num_error + 'f) \<Rightarrow> ('s, 'e) client \<Rightarrow> 'f UPS \<Rightarrow> string list
     \<Rightarrow> 'f Variable list \<Rightarrow> 's \<Rightarrow> ('f Variable list \<times> 'e error option) \<times> 's" where
  "GetVariables_loop ParseFloat send u [] vars s = ((vars, None), s)"
| "GetVariables_loop ParseFloat send u (line # ls) vars s =
     (case GetVariables_entry ParseFloat send u line s of
        (Skip, s') \<Rightarrow> GetVariables_loop ParseFloat send u ls vars s'
      | (Abort err, s') \<Rightarrow> ((vars, Some err), s')
      | (Emit newVar, s') \<Rightarrow> GetVariables_loop ParseFloat send u ls (vars @ [newVar]) s')"

definition GetVariables ::
  "(string \<Rightarrow> num_error + 'f) \<Rightarrow> ('s, 'e) client \<Rightarrow> 'f UPS \<Rightarrow> 's
     \<Rightarrow> ('f Variable list \<times> 'e error option) \<times> 'f UPS \<times> 's" where
  "GetVariables ParseFloat send u s =
     (case send (''LIST VAR '' @ quoteName (ups_Name u)) s of
        ((resp, Some err), s') \<Rightarrow> (([], Some (ClientError err)), u, s')
      | ((resp, None), s') \<Rightarrow>
          if length resp < 2 then (([], None), u\<lparr>Variables := []\<rparr>, s')
          else
            (case GetVariables_loop ParseFloat send u (slice resp 1 (length resp - 1)) [] s' of
               ((vars, Some err), s'') \<Rightarrow> ((vars, Some err), u, s'')
             | ((vars, None), s'') \<Rightarrow> ((vars, None), u\<lparr>Variables := vars\<rparr>, s'')))"


section \<open>The session: one connection to the server\<close>

text \<open>
  The counters of \<^verbatim>\<open>ClientMetrics\<close> are \<^verbatim>\<open>uint64\<close>: \<^verbatim>\<open>atomic.AddUint64\<close> wraps
  around. The time of the last command is left out.
\<close>

record ClientMetrics =
  CommandsSent :: "64 word"
  CommandsFailed :: "64 word"
  BytesSent :: "64 word"
  BytesReceived :: "64 word"
  Reconnects :: "64 word"

text \<open>
  The connection, with its buffered reader: the bytes the server delivers before the read
  deadline and that are not read yet, the bytes written so far, and whether writing,
  setting the read deadline and closing fail.
\<close>

record Conn =
  incoming :: string
  written :: string
  write_fails :: bool
  deadline_fails :: bool
  close_fails :: bool

text \<open>
  The struct \<^verbatim>\<open>Client\<close>. The reader belongs to the connection; the address, the
  time-outs, the TLS configuration and the logger have no part in the results below and
  are left out, and so is the mutex: a command runs from its start to its end.
\<close>

record Client =
  Version :: string
  ProtocolVersion :: string
  conn :: "Conn option"
  UseTLS :: bool
  metrics :: "ClientMetrics option"

text \<open>
  A \<^verbatim>\<open>context.Context\<close>, as far as a command sees it: whether it is done when the
  command starts, and whether it is done before the response is read.
  \<^verbatim>\<open>context.Background()\<close> is never done.
\<close>

record Context =
  done_at_start :: bool
  done_while_reading :: bool

definition Background :: Context where
  "Background = \<lparr>done_at_start = False, done_while_reading = False\<rparr>"

datatype read_error = DeadlineNotSet | ReadError | Cancelled

text \<open>
  The errors of a session: the context's error, a failed write, a failed read, the typed
  error for an \<^verbatim>\<open>ERR\<close> line, the panic of a write to the nil connection of a closed
  client, and the two errors of closing.
\<close>

datatype 'x client_error =
  ContextError | SendFailed | ReadFailed read_error | ServerError 'x | NilConnPanic
  | AlreadyClosed | CloseFailed

text \<open>
  Modelled from the spec: \<^verbatim>\<open>errorForMessage\<close> and the table of error codes it reads,
  of the file \<^verbatim>\<open>errors.go\<close>, which is not among the sources. The code is looked up in the
  fixed taxonomy; a code that the taxonomy does not have maps to the generic
  unknown-command failure. The table and that failure are the record \<open>Errors\<close>, a
  parameter of the functions that report an \<^verbatim>\<open>ERR\<close> line.
\<close>

record 'x Errors =
  errorNames :: "(string \<times> 'x) list"
  ErrUnknownCommand :: 'x

definition errorForMessage :: "'x Errors \<Rightarrow> string \<Rightarrow> 'x" where
  "errorForMessage errs message =
     (case map_of (errorNames errs) message of Some err \<Rightarrow> err | None \<Rightarrow> ErrUnknownCommand errs)"

text \<open>
  \<^verbatim>\<open>reader.ReadString('\n')\<close>: the bytes up to the first newline, the newline included.
  Without a newline in what the server delivers, the read ends with an error.
\<close>

definition ReadString :: "Conn \<Rightarrow> string option \<times> Conn" where
  "ReadString cn =
     (if LF \<in> set (incoming cn) then
        (Some (takeWhile (\<lambda>c. c \<noteq> LF) (incoming cn) @ [LF]),
         cn\<lparr>incoming := tl (dropWhile (\<lambda>c. c \<noteq> LF) (incoming cn))\<rparr>)
      else (None, cn\<lparr>incoming := []\<rparr>))"

text \<open>
  The read loop, the same in \<^verbatim>\<open>ReadResponse\<close> and in the goroutine of
  \<^verbatim>\<open>readResponseWithContext\<close>.
\<close>

lemma tl_dropWhile_shorter:
  "x \<in> set xs \<Longrightarrow> length (tl (dropWhile (\<lambda>c. c \<noteq> x) xs)) < length xs"
proof -
  assume "x \<in> set xs"
  then have "dropWhile (\<lambda>c. c \<noteq> x) xs \<noteq> []"
    by (auto simp: dropWhile_eq_Nil_conv)
  then have "length (tl (dropWhile (\<lambda>c. c \<noteq> x) xs)) < length (dropWhile (\<lambda>c. c \<noteq> x) xs)"
    by (cases "dropWhile (\<lambda>c. c \<noteq> x) xs") simp_all
  also have "\<dots> \<le> length xs"
    by (rule length_dropWhile_le)
  finally show ?thesis .
qed

lemma ReadString_shorter:
  "ReadString cn = (Some line, cn') \<Longrightarrow> length (incoming cn') < length (incoming cn)"
  using tl_dropWhile_shorter [of LF "incoming cn"]
  by (auto simp: ReadString_def split: if_splits)

function ReadResponse_loop ::
  "string \<Rightarrow> bool \<Rightarrow> string list \<Rightarrow> Conn \<Rightarrow> (read_error + string list) \<times> Conn" where
  "ReadResponse_loop endLine multiLineResponse response cn =
     (case ReadString cn of
        (None, cn') \<Rightarrow> (Inl ReadError, cn')
      | (Some line, cn') \<Rightarrow>
          if length line > 0 then
            (let cleanLine = TrimSuffix line [LF];
                 response = response @ [cleanLine]
             in if line = endLine \<or> \<not> multiLineResponse then (Inr response, cn')
                else ReadResponse_loop endLine multiLineResponse response cn')
          else ReadResponse_loop endLine multiLineResponse response cn')"
  by pat_completeness auto
termination
  by (relation "measure (\<lambda>(endLine, multiLineResponse, response, cn). length (incoming cn))")
    (auto dest: ReadString_shorter [OF sym])

definition ReadResponse :: "string \<Rightarrow> bool \<Rightarrow> Conn \<Rightarrow> (read_error + string list) \<times> Conn" where
  "ReadResponse endLine multiLineResponse cn =
     (if deadline_fails cn then (Inl DeadlineNotSet, cn)
      else ReadResponse_loop endLine multiLineResponse [] cn)"

text \<open>
  \<^verbatim>\<open>readResponseWithContext\<close>: the goroutine runs the read loop, and the \<^verbatim>\<open>select\<close>
  returns the context's error when the context is done first. The goroutine goes on
  reading then; the connection is given as it leaves it.
\<close>

definition readResponseWithContext ::
  "Context \<Rightarrow> string \<Rightarrow> bool \<Rightarrow> Conn \<Rightarrow> (read_error + string list) \<times> Conn" where
  "readResponseWithContext ctx endLine multiLineResponse cn =
     (if deadline_fails cn then (Inl DeadlineNotSet, cn)
      else
        (case ReadResponse_loop endLine multiLineResponse [] cn of
           (result, cn') \<Rightarrow> if done_while_reading ctx then (Inl Cancelled, cn') else (result, cn')))"

text \<open>The guarded updates of the counters (\<^verbatim>\<open>if c.metrics != nil\<close>).\<close>

definition add_CommandsFailed :: "Client \<Rightarrow> Client" where
  "add_CommandsFailed c =
     c\<lparr>metrics := map_option (\<lambda>m. m\<lparr>CommandsFailed := CommandsFailed m + 1\<rparr>) (metrics c)\<rparr>"

definition add_Sent :: "nat \<Rightarrow> Client \<Rightarrow> Client" where
  "add_Sent n c =
     c\<lparr>metrics := map_option
          (\<lambda>m. m\<lparr>CommandsSent := CommandsSent m + 1, BytesSent := BytesSent m + of_nat n\<rparr>)
          (metrics c)\<rparr>"

text \<open>The loop over the response that adds \<^verbatim>\<open>len(line)+1\<close> for each line.\<close>

definition add_BytesReceived :: "string list \<Rightarrow> Client \<Rightarrow> Client" where
  "add_BytesReceived resp c =
     c\<lparr>metrics := map_option
          (\<lambda>m. m\<lparr>BytesReceived :=
                  fold (\<lambda>line b. b + of_nat (length line + 1)) resp (BytesReceived m)\<rparr>)
          (metrics c)\<rparr>"

text \<open>The end of both command functions: an \<^verbatim>\<open>ERR\<close> line becomes a typed error.\<close>

definition ERR_code :: "string \<Rightarrow> string" where
  "ERR_code line =
     (let errCode = Split line space
      in if length errCode > 1 then errCode ! 1 else ''UNKNOWN-COMMAND'')"

definition sendCommandUnsafe ::
  "'x Errors \<Rightarrow> string \<Rightarrow> Client \<Rightarrow> (string list \<times> 'x client_error option) \<times> Client" where
  "sendCommandUnsafe errs cmd c =
     (case conn c of
        None \<Rightarrow> (([], Some NilConnPanic), c)
      | Some cn \<Rightarrow>
         (let cmdTrimmed = TrimSpace cmd;
              multiLineResponse = HasPrefix cmdTrimmed ''LIST '';
              cmdWithNewline = cmd @ [LF]
          in if write_fails cn then (([], Some SendFailed), add_CommandsFailed c)
             else
               (let cn1 = cn\<lparr>written := written cn @ cmdWithNewline\<rparr>;
                    c1 = add_Sent (length cmdWithNewline) c;
                    endLine = (if multiLineResponse then ''END '' @ cmdTrimmed @ [LF]
                               else ''OK'' @ [LF])
                in case ReadResponse endLine multiLineResponse cn1 of
                     (Inl err, cn2) \<Rightarrow>
                       (([], Some (ReadFailed err)), add_CommandsFailed (c1\<lparr>conn := Some cn2\<rparr>))
                   | (Inr resp, cn2) \<Rightarrow>
                       (let c2 = add_BytesReceived resp (c1\<lparr>conn := Some cn2\<rparr>)
                        in if length resp > 0 \<and> HasPrefix (resp ! 0) ''ERR '' then
                             (([], Some (ServerError (errorForMessage errs (ERR_code (resp ! 0))))),
                              add_CommandsFailed c2)
                           else ((resp, None), c2)))))"

definition SendCommandWithContext ::
  "'x Errors \<Rightarrow> Context \<Rightarrow> string \<Rightarrow> Client
     \<Rightarrow> (string list \<times> 'x client_error option) \<times> Client" where
  "SendCommandWithContext errs ctx cmd c =
     (if done_at_start ctx then (([], Some ContextError), c)
      else
        (case conn c of
           None \<Rightarrow> (([], Some NilConnPanic), c)
         | Some cn \<Rightarrow>
            (let cmdTrimmed = TrimSpace cmd;
                 multiLineResponse = HasPrefix cmdTrimmed ''LIST '';
                 cmdWithNewline = cmd @ [LF]
             in if write_fails cn then (([], Some SendFailed), c)
                else
                  (let cn1 = cn\<lparr>written := written cn @ cmdWithNewline\<rparr>;
                       endLine = (if multiLineResponse then ''END '' @ cmdTrimmed @ [LF]
                                  else ''OK'' @ [LF])
                   in case readResponseWithContext ctx endLine multiLineResponse cn1 of
                        (Inl err, cn2) \<Rightarrow> (([], Some (ReadFailed err)), c\<lparr>conn := Some cn2\<rparr>)
                      | (Inr resp, cn2) \<Rightarrow>
                          if length resp > 0 \<and> HasPrefix (resp ! 0) ''ERR '' then
                            (([], Some (ServerError (errorForMessage errs (ERR_code (resp ! 0))))),
                             c\<lparr>conn := Some cn2\<rparr>)
                          else ((resp, None), c\<lparr>conn := Some cn2\<rparr>)))))"

definition SendCommand ::
  "'x Errors \<Rightarrow> string \<Rightarrow> Client \<Rightarrow> (string list \<times> 'x client_error option) \<times> Client" where
  "SendCommand errs cmd c = SendCommandWithContext errs Background cmd c"

text \<open>\<^verbatim>\<open>Client.Close\<close> and \<^verbatim>\<open>Client.Disconnect\<close>.\<close>

definition Close :: "Client \<Rightarrow> 'x client_error option \<times> Client" where
  "Close c =
     (case conn c of
        None \<Rightarrow> (Some AlreadyClosed, c)
      | Some cn \<Rightarrow> (if close_fails cn then Some CloseFailed else None, c\<lparr>conn := None\<rparr>))"

definition Disconnect :: "'x Errors \<Rightarrow> Client \<Rightarrow> (bool \<times> 'x client_error option) \<times> Client" where
  "Disconnect errs c =
     (case conn c of
        None \<Rightarrow> ((False, Some AlreadyClosed), c)
      | Some cn \<Rightarrow>
         (case sendCommandUnsafe errs ''LOGOUT'' c of
            ((logoutResp, e), c1) \<Rightarrow>
              if (case conn c1 of None \<Rightarrow> False | Some cn1 \<Rightarrow> close_fails cn1)
              then ((False, Some CloseFailed), c1\<lparr>conn := None\<rparr>)
              else if length logoutResp > 0 \<and>
                      (logoutResp ! 0 = ''OK Goodbye'' \<or> logoutResp ! 0 = ''Goodbye...'')
              then ((True, None), c1\<lparr>conn := None\<rparr>)
              else ((False, None), c1\<lparr>conn := None\<rparr>)))"

section \<open>The connection pool\<close>

text \<open>
  The struct \<^verbatim>\<open>Pool\<close>. The buffered channel \<^verbatim>\<open>clients\<close> is the list of the clients in
  it, the next to be received first; its capacity is \<^verbatim>\<open>maxSize\<close>.
\<close>

record Pool =
  hostname :: string
  port :: int
  clients :: "Client list"
  maxSize :: int
  closed :: bool
  activeClients :: int

record PoolConfig =
  MaxSize :: int
  Hostname :: string
  Port :: int

datatype pool_error = HostnameRequired | PoolClosed | ContextDone | ConnectFailed

definition NewPool :: "PoolConfig \<Rightarrow> pool_error + Pool" where
  "NewPool config =
     (let config = (if MaxSize config \<le> 0 then config\<lparr>MaxSize := 10\<rparr> else config);
          config = (if Port config = 0 then config\<lparr>Port := 3493\<rparr> else config)
      in if Hostname config = [] then Inl HostnameRequired
         else Inr \<lparr>hostname = Hostname config, port = Port config, clients = [],
                   maxSize = MaxSize config, closed = False, activeClients = 0\<rparr>)"

text \<open>
  What a call of \<^verbatim>\<open>Get\<close> meets outside the pool: the result of
  \<^verbatim>\<open>ConnectWithOptionsAndConfig\<close>, should \<^verbatim>\<open>Get\<close> connect (\<open>None\<close> for an error);
  the client that another goroutine's \<^verbatim>\<open>Put\<close> sends on the channel while \<^verbatim>\<open>Get\<close> waits
  on it, if any; and whether the \<^verbatim>\<open>select\<close> of the waiting \<^verbatim>\<open>Get\<close> returns through
  \<^verbatim>\<open>ctx.Done()\<close>.
\<close>

record get_env =
  connected :: "Client option"
  released :: "Client option"
  ctx_done :: bool

text \<open>
  The outcome of \<^verbatim>\<open>Get\<close>: it returns a client or an error, or it stays blocked in its
  \<^verbatim>\<open>select\<close> (no client arrives and the context is never done).
\<close>

datatype get_outcome = Returned "Client option" "pool_error option" | Blocks

definition add_Reconnects :: "Client \<Rightarrow> Client" where
  "add_Reconnects c =
     c\<lparr>metrics := map_option (\<lambda>m. m\<lparr>Reconnects := Reconnects m + 1\<rparr>) (metrics c)\<rparr>"

text \<open>The second half of \<^verbatim>\<open>Get\<close> (``Create new client if we haven't reached max size'').\<close>

definition Get_create :: "get_env \<Rightarrow> Pool \<Rightarrow> get_outcome \<times> Pool" where
  "Get_create env p =
     (if activeClients p \<ge> maxSize p then
        (if ctx_done env then (Returned None (Some ContextDone), p)
         else
           (case clients p of
              client # rest \<Rightarrow> (Returned (Some client) None, p\<lparr>clients := rest\<rparr>)
            | [] \<Rightarrow>
               (case released env of
                  Some client \<Rightarrow> (Returned (Some client) None, p)
                | None \<Rightarrow> (Blocks, p))))
      else
        (let p1 = p\<lparr>activeClients := activeClients p + 1\<rparr>
         in case connected env of
              None \<Rightarrow> (Returned None (Some ConnectFailed), p1\<lparr>activeClients := activeClients p1 - 1\<rparr>)
            | Some client \<Rightarrow> (Returned (Some (add_Reconnects client)) None, p1)))"

definition Get :: "get_env \<Rightarrow> Pool \<Rightarrow> get_outcome \<times> Pool" where
  "Get env p =
     (if closed p then (Returned None (Some PoolClosed), p)
      else
        (case clients p of
           client # rest \<Rightarrow>
             if conn client \<noteq> None then (Returned (Some client) None, p\<lparr>clients := rest\<rparr>)
             else Get_create env (p\<lparr>clients := rest, activeClients := activeClients p - 1\<rparr>)
         | [] \<Rightarrow> Get_create env p))"

text \<open>
  \<^verbatim>\<open>Put\<close> returns the error of closing the client, if it closes it. The client is a
  pointer; \<open>None\<close> is the nil pointer.
\<close>

definition Put :: "Client option \<Rightarrow> Pool \<Rightarrow> unit client_error option \<times> Pool" where
  "Put client p =
     (case client of
        None \<Rightarrow> (None, p)
      | Some c \<Rightarrow>
          if closed p then (fst (Close c), p)
          else if int (length (clients p)) < maxSize p then (None, p\<lparr>clients := clients p @ [c]\<rparr>)
          else (fst (Close c), p\<lparr>activeClients := activeClients p - 1\<rparr>))"

text \<open>\<^verbatim>\<open>Pool.Close\<close>: the error is the last error of closing an idle client.\<close>

definition Pool_Close :: "Pool \<Rightarrow> unit client_error option \<times> Pool" where
  "Pool_Close p =
     (if closed p then (None, p)
      else
        (fold (\<lambda>client lastErr. case fst (Close client) of Some err \<Rightarrow> Some err | None \<Rightarrow> lastErr)
           (clients p) None,
         p\<lparr>closed := True, clients := []\<rparr>))"

definition Stats :: "Pool \<Rightarrow> int \<times> int" where
  "Stats p = (int (length (clients p)), activeClients p)"

text \<open>A sequence of calls on a pool, each \<^verbatim>\<open>Get\<close> with what it meets outside.\<close>

datatype pool_call = Call_Get get_env | Call_Put "Client option" | Call_Close

fun call :: "Pool \<Rightarrow> pool_call \<Rightarrow> Pool" where
  "call p (Call_Get env) = snd (Get env p)"
| "call p (Call_Put client) = snd (Put client p)"
| "call p Call_Close = snd (Pool_Close p)"

definition calls :: "Pool \<Rightarrow> pool_call list \<Rightarrow> Pool" where
  "calls p cs = foldl call p cs"

section \<open>What the listing of variables is meant to produce\<close>

text \<open>
  The name and the raw value of a line of the listing, as \<^verbatim>\<open>GetVariables\<close> cuts them:
  the text before the first double quote, and the text between the first two double
  quotes, spaces trimmed.
\<close>

definition listed_name :: "'f UPS \<Rightarrow> string \<Rightarrow> string" where
  "listed_name u line =
     TrimSuffix (Split (TrimPrefix line (''VAR '' @ ups_Name u @ '' '')) dquote ! 0) '' ''"

definition raw_value :: "'f UPS \<Rightarrow> string \<Rightarrow> string" where
  "raw_value u line = Trim (Split (TrimPrefix line (''VAR '' @ ups_Name u @ '' '')) dquote ! 1) '' ''"

text \<open>
  The number that a text of the integer pattern denotes: its digits read in base ten, with
  the sign.
\<close>

definition digits_value :: "string \<Rightarrow> nat" where
  "digits_value ds = foldl (\<lambda>n c. 10 * n + digit_val c) 0 ds"

definition integer_value :: "string \<Rightarrow> int" where
  "integer_value s =
     (case s of [] \<Rightarrow> 0
      | c # r \<Rightarrow> if c = CHR ''-'' then - int (digits_value r) else int (digits_value s))"

text \<open>
  The inference by precedence. \<open>inferred ParseFloat raw v\<close> says that the variable \<open>v\<close>
  has the value and the type tag that the raw value \<open>raw\<close> asks for: a boolean for
  \<^verbatim>\<open>enabled\<close> and \<^verbatim>\<open>disabled\<close>; for a text of the integer pattern whose number fits a
  signed integer of 64 bits, that number; for a text of the float pattern that
  \<^verbatim>\<open>strconv.ParseFloat\<close> accepts, that float; the text itself otherwise. The tag of a
  number is left open when the device reports the very type \<^verbatim>\<open>INTEGER\<close> or
  \<^verbatim>\<open>FLOAT_64\<close>.
\<close>

definition inferred :: "(string \<Rightarrow> num_error + 'f) \<Rightarrow> string \<Rightarrow> 'f Variable \<Rightarrow> bool" where
  "inferred ParseFloat raw v =
     (if raw = ''enabled'' then Value v = VBool True \<and> Type v = ''BOOLEAN''
      else if raw = ''disabled'' then Value v = VBool False \<and> Type v = ''BOOLEAN''
      else if matches_integer raw then
        (if - (2 ^ 63) \<le> integer_value raw \<and> integer_value raw < 2 ^ 63 then
           Value v = VInt (integer_value raw) \<and>
           (OriginalType v = ''INTEGER'' \<or> Type v = ''INTEGER'')
         else Value v = VString raw \<and> Type v = ''STRING'')
      else if matches_float raw then
        (case ParseFloat raw of
           Inr f \<Rightarrow> Value v = VFloat f \<and> (OriginalType v = ''FLOAT_64'' \<or> Type v = ''FLOAT_64'')
         | Inl e \<Rightarrow> Value v = VString raw \<and> Type v = ''STRING'')
      else Value v = VString raw \<and> Type v = ''STRING'')"



section \<open>A device and a server to run the functions on\<close>

definition ups1 :: "unit UPS" where
  "ups1 = \<lparr>ups_Name = ''ups1'', ups_Description = [], Master = False, NumberOfLogins = 0,
            Clients = [], Variables = [], Commands = []\<rparr>"

text \<open>A client whose server answers each command from a table, and fails on any other.\<close>

definition answers :: "(string \<times> string list) list \<Rightarrow> (unit, unit) client" where
  "answers table cmd s =
     (case map_of table cmd of Some resp \<Rightarrow> ((resp, None), s) | None \<Rightarrow> (([], Some ()), s))"

definition no_floats :: "string \<Rightarrow> num_error + unit" where
  "no_floats s = Inl ErrSyntax"

definition listing1 :: "(string \<times> string list) list" where
  "listing1 =
     [(''LIST VAR ups1'',
        [''BEGIN LIST VAR ups1'',
         ''VAR ups1 b.c '' @ [dquote] @ ''100'' @ [dquote],
         ''VAR ups1 id '' @ [dquote] @ ''abc'' @ [dquote],
         ''END LIST VAR ups1'']),
      (''GET DESC ups1 b.c'', [''DESC ups1 b.c '' @ [dquote] @ ''charge'' @ [dquote]]),
      (''GET TYPE ups1 b.c'', [''TYPE ups1 b.c NUMBER'']),
      (''GET DESC ups1 id'', [''DESC ups1 id '' @ [dquote] @ ''name'' @ [dquote]]),
      (''GET TYPE ups1 id'', [''TYPE ups1 id RW STRING:20''])]"

definition var_charge :: "unit Variable" where
  "var_charge = \<lparr>Name = ''b.c'', Value = VInt 100, Type = ''INTEGER'', Description = ''charge'',
                  Writeable = False, MaximumLength = 0, OriginalType = ''NUMBER''\<rparr>"

definition var_id :: "unit Variable" where
  "var_id = \<lparr>Name = ''id'', Value = VString ''abc'', Type = ''STRING'', Description = ''name'',
              Writeable = True, MaximumLength = 20, OriginalType = ''STRING''\<rparr>"

definition var_count :: "unit Variable" where
  "var_count = \<lparr>Name = ''n'', Value = VString ''9223372036854775808'', Type = ''STRING'',
                 Description = ''count'', Writeable = False, MaximumLength = 0,
                 OriginalType = ''NUMBER''\<rparr>"

definition listing2 :: "(string \<times> string list) list" where
  "listing2 =
     [(''LIST VAR ups1'',
        [''BEGIN LIST VAR ups1'',
         ''VAR ups1 n '' @ [dquote] @ ''9223372036854775808'' @ [dquote],
         ''END LIST VAR ups1'']),
      (''GET DESC ups1 n'', [''DESC ups1 n '' @ [dquote] @ ''count'' @ [dquote]]),
      (''GET TYPE ups1 n'', [''TYPE ups1 n RO NUMBER''])]"

section \<open>What a command is meant to read\<close>

text \<open>
  The bytes of a sequence of lines on the wire, each line followed by a newline. A
  sequence of lines is the complete response to a command when no line has a newline in
  it and, for a listing command, the last line and no line before it is the sentinel
  \<^verbatim>\<open>END <command>\<close>, and for any other command the response is one line.
\<close>

definition wire :: "string list \<Rightarrow> string" where
  "wire ls = concat (map (\<lambda>l. l @ [LF]) ls)"

definition complete :: "string \<Rightarrow> string list \<Rightarrow> bool" where
  "complete cmd ls =
     (ls \<noteq> [] \<and> list_all (\<lambda>l. LF \<notin> set l) ls \<and>
      (if HasPrefix (TrimSpace cmd) ''LIST '' then
         last ls = ''END '' @ TrimSpace cmd \<and>
         list_all (\<lambda>l. l \<noteq> ''END '' @ TrimSpace cmd) (butlast ls)
       else length ls = 1))"

text \<open>The token between \<^verbatim>\<open>ERR \<close> and the next space of an error line.\<close>

definition ERR_token :: "string \<Rightarrow> string" where
  "ERR_token line = takeWhile (\<lambda>c. c \<noteq> space) (drop 4 line)"

section \<open>The bounds of the pool\<close>

definition pool_inv :: "Pool \<Rightarrow> bool" where
  "pool_inv p = (int (length (clients p)) \<le> maxSize p \<and> activeClients p \<le> maxSize p \<and> 0 < maxSize p)"

section \<open>Clients and pools to run the functions on\<close>

definition conn0 :: "string \<Rightarrow> Conn" where
  "conn0 input = \<lparr>incoming = input, written = [], write_fails = False, deadline_fails = False,
                  close_fails = False\<rparr>"

definition metrics0 :: ClientMetrics where
  "metrics0 = \<lparr>CommandsSent = 0, CommandsFailed = 0, BytesSent = 0, BytesReceived = 0,
               Reconnects = 0\<rparr>"

definition client0 :: "string \<Rightarrow> Client" where
  "client0 input = \<lparr>Version = [], ProtocolVersion = [], conn = Some (conn0 input), UseTLS = False,
                    metrics = Some metrics0\<rparr>"

definition errors0 :: "nat Errors" where
  "errors0 = \<lparr>errorNames = [(''ACCESS-DENIED'', 1), (''UNKNOWN-UPS'', 2)], ErrUnknownCommand = 0\<rparr>"

definition reply1 :: "string list" where
  "reply1 = [''BEGIN LIST VAR ups1'', ''VAR ups1 b.c '' @ [dquote] @ ''100'' @ [dquote],
             ''END LIST VAR ups1'']"

definition reply2 :: "string list" where
  "reply2 = [''DESC ups1 b.c '' @ [dquote] @ ''charge'' @ [dquote], ''TYPE ups1 b.c RW NUMBER'']"

definition config1 :: PoolConfig where
  "config1 = \<lparr>MaxSize = 1, Hostname = ''localhost'', Port = 0\<rparr>"

definition pool1 :: Pool where
  "pool1 = \<lparr>hostname = ''localhost'', port = 3493, clients = [], maxSize = 1, closed = False,
            activeClients = 0\<rparr>"

definition dials :: "Client \<Rightarrow> get_env" where
  "dials c = \<lparr>connected = Some c, released = None, ctx_done = False\<rparr>"

definition receives :: "Client \<Rightarrow> get_env" where
  "receives c = \<lparr>connected = None, released = Some c, ctx_done = False\<rparr>"

definition closed_client :: Client where
  "closed_client = \<lparr>Version = [], ProtocolVersion = [], conn = None, UseTLS = False,
                     metrics = None\<rparr>"

section \<open>Properties of the name quoting\<close>

lemma ReplaceAll_concat_map:
  "ReplaceAll s old new = concat (map (\<lambda>c. if c = old then new else [c]) s)"
  by (induction s) simp_all

lemma escape_two_passes:
  "ReplaceAll (ReplaceAll s bslash [bslash, bslash]) dquote [bslash, dquote]
     = concat (map escape_char s)"
  by (induction s) (simp_all add: escape_char_def)

lemma ContainsAny_set: "ContainsAny s chars \<longleftrightarrow> set s \<inter> set chars \<noteq> {}"
  by (auto simp: ContainsAny_def list_ex_iff)

lemma quoteName_quoted:
  "ContainsAny name [space, tab, LF, CR, dquote] \<Longrightarrow>
     quoteName name = [dquote] @ concat (map escape_char name) @ [dquote]"
  by (simp add: quoteName_def Let_def escape_two_passes)

lemma quoteName_bare:
  "\<not> ContainsAny name [space, tab, LF, CR, dquote] \<Longrightarrow> quoteName name = name"
  by (simp add: quoteName_def)

lemma unescape_escape_char: "unescape (escape_char c @ rest) = c # unescape rest"
proof (cases "c = bslash \<or> c = dquote")
  case True
  then show ?thesis by (auto simp: escape_char_def)
next
  case False
  show ?thesis
  proof (cases rest)
    case Nil
    with False show ?thesis by (simp add: escape_char_def)
  next
    case (Cons r rs)
    with False show ?thesis by (simp add: escape_char_def)
  qed
qed

lemma unescape_escaped: "unescape (concat (map escape_char s)) = s"
proof (induction s)
  case Nil
  show ?case by simp
next
  case (Cons c s)
  have "unescape (concat (map escape_char (c # s)))
          = unescape (escape_char c @ concat (map escape_char s))"
    by simp
  also have "\<dots> = c # unescape (concat (map escape_char s))"
    by (rule unescape_escape_char)
  finally show ?case using Cons.IH by simp
qed

lemma strip_quotes_wrapped: "strip_quotes ([dquote] @ s @ [dquote]) = s"
  by (simp add: strip_quotes_def butlast_append)

text \<open>
  Claim C3, as the code has it. The bytes that make \<^verbatim>\<open>quoteName\<close> quote are the five of
  its literal: space, tab, newline, carriage return and double quote. A name with one of
  them is wrapped in double quotes around its bytes, each backslash and each double quote
  escaped once (the two passes, backslashes first, do not escape twice); a name with none
  of them is returned unchanged.
\<close>

theorem quoteName_spec:
  "quoteName name =
     (if set name \<inter> {space, tab, LF, CR, dquote} = {} then name
      else [dquote] @ concat (map escape_char name) @ [dquote])"
proof -
  have eq: "(set name \<inter> {space, tab, LF, CR, dquote} = {})
              = (\<not> ContainsAny name [space, tab, LF, CR, dquote])"
    by (simp add: ContainsAny_set)
  show ?thesis
    unfolding eq by (simp add: quoteName_quoted quoteName_bare)
qed

theorem quoteName_spec_witness:
  "quoteName ''my ups'' = [dquote] @ ''my ups'' @ [dquote]
   \<and> quoteName [CHR ''a'', bslash, dquote] = [dquote, CHR ''a'', bslash, bslash, bslash, dquote, dquote]
   \<and> quoteName ''ups1'' = ''ups1''"
  using quoteName_spec [of "''my ups''"] quoteName_spec [of "[CHR ''a'', bslash, dquote]"]
    quoteName_spec [of "''ups1''"]
  by (simp add: escape_char_def)

text \<open>
  Claim C3, as stated, fails: a name with a newline and no space, tab or double quote is
  not returned unchanged.
\<close>

theorem quoteName_identity_counterexample:
  "space \<notin> set [CHR ''a'', LF, CHR ''b''] \<and> tab \<notin> set [CHR ''a'', LF, CHR ''b'']
   \<and> dquote \<notin> set [CHR ''a'', LF, CHR ''b'']
   \<and> quoteName [CHR ''a'', LF, CHR ''b''] = [dquote, CHR ''a'', LF, CHR ''b'', dquote]
   \<and> quoteName [CHR ''a'', LF, CHR ''b''] \<noteq> [CHR ''a'', LF, CHR ''b'']"
  by (simp add: quoteName_def ContainsAny_def)

text \<open>
  Claim C8, as the code has it. For every name that \<^verbatim>\<open>quoteName\<close> quotes (one with a
  space, tab, newline, carriage return or double quote, whatever else it contains),
  quoting and then unquoting gives the name back.
\<close>

theorem quoteName_roundtrip:
  "ContainsAny name [space, tab, LF, CR, dquote] \<Longrightarrow> protocol_unquote (quoteName name) = name"
  by (simp only: quoteName_quoted protocol_unquote_def strip_quotes_wrapped unescape_escaped)

theorem quoteName_roundtrip_witness:
  "ContainsAny [bslash, dquote, space, bslash, bslash] [space, tab, LF, CR, dquote]
   \<and> protocol_unquote (quoteName [bslash, dquote, space, bslash, bslash])
       = [bslash, dquote, space, bslash, bslash]"
proof -
  have h: "ContainsAny [bslash, dquote, space, bslash, bslash] [space, tab, LF, CR, dquote]"
    by (simp add: ContainsAny_def)
  show ?thesis using h quoteName_roundtrip [OF h] by simp
qed

text \<open>
  Claim C8, as stated, fails: a name of two backslashes has only bytes of the claim's
  alphabet, is left bare by \<^verbatim>\<open>quoteName\<close>, and unquotes to one backslash.
\<close>

theorem quoteName_roundtrip_counterexample:
  "list_all (\<lambda>c. c \<in> {bslash, dquote, space, tab, LF, CR}) [bslash, bslash]
   \<and> quoteName [bslash, bslash] = [bslash, bslash]
   \<and> protocol_unquote (quoteName [bslash, bslash]) = [bslash]
   \<and> protocol_unquote (quoteName [bslash, bslash]) \<noteq> [bslash, bslash]"
  by (simp add: quoteName_def ContainsAny_def protocol_unquote_def strip_quotes_def)

section \<open>Properties of the listing of variables\<close>

lemma TrimPrefix_append: "TrimPrefix (p @ rest) p = rest"
  by (simp add: TrimPrefix_def HasPrefix_def)

lemma is_digit_not_dot: "is_digit c \<Longrightarrow> c \<noteq> CHR ''.''"
  by (auto simp: is_digit_def)

lemma digits1_no_dot: "digits1 t \<Longrightarrow> CHR ''.'' \<notin> set t"
  by (auto simp: digits1_def list_all_iff dest: is_digit_not_dot)

lemma strip_sign_dot: "CHR ''.'' \<in> set (strip_sign s) \<longleftrightarrow> CHR ''.'' \<in> set s"
  by (cases s) (auto simp: strip_sign_def)

lemma matches_integer_no_dot: "matches_integer raw \<Longrightarrow> \<not> Contains raw (CHR ''.'')"
  using digits1_no_dot [of "strip_sign raw"]
  by (simp add: matches_integer_def Contains_def strip_sign_dot)

lemma decimal_has_dot: "decimal t \<Longrightarrow> CHR ''.'' \<in> set t"
proof -
  assume "decimal t"
  then obtain d fr where d: "dropWhile (\<lambda>c. c \<noteq> CHR ''.'') t = d # fr"
    by (auto simp: decimal_def split: list.splits)
  then have "dropWhile (\<lambda>c. c \<noteq> CHR ''.'') t \<noteq> []" by simp
  from hd_dropWhile [OF this] d have "d = CHR ''.''" by simp
  moreover have "d \<in> set (dropWhile (\<lambda>c. c \<noteq> CHR ''.'') t)" using d by simp
  ultimately show ?thesis by (auto dest: set_dropWhileD)
qed

lemma matches_float_dot: "matches_float raw \<Longrightarrow> Contains raw (CHR ''.'')"
  using decimal_has_dot [of "strip_sign raw"]
  by (simp add: matches_float_def Contains_def strip_sign_dot)

lemma numericRegex_iff:
  "numericRegex_MatchString raw \<longleftrightarrow> matches_integer raw \<or> matches_float raw"
  by (simp add: numericRegex_MatchString_def matches_integer_def matches_float_def Let_def)

lemma not_both: "matches_integer raw \<Longrightarrow> \<not> matches_float raw"
  using matches_integer_no_dot matches_float_dot by blast

text \<open>
  \<^verbatim>\<open>strconv.ParseInt\<close> on a text of the integer pattern: the number of the text when it
  fits 64 bits, a range error otherwise.
\<close>

lemma foldl_digits_ge: "m \<le> foldl (\<lambda>n c. 10 * n + digit_val c) m cs"
proof (induction cs arbitrary: m)
  case Nil
  show ?case by simp
next
  case (Cons c cs)
  have "m \<le> 10 * m + digit_val c" by simp
  also have "\<dots> \<le> foldl (\<lambda>n c. 10 * n + digit_val c) (10 * m + digit_val c) cs"
    by (rule Cons.IH)
  finally show ?case by simp
qed

lemma ParseUint_loop_digits:
  assumes "list_all is_digit ds"
  shows "ParseUint_loop ds n =
           (if n < 2 ^ 64 \<or> ds = [] then
              (if foldl (\<lambda>n c. 10 * n + digit_val c) n ds < 2 ^ 64
               then Inr (foldl (\<lambda>n c. 10 * n + digit_val c) n ds) else
               (if ds = [] then Inr n else Inl ErrRange))
            else Inl ErrRange)"
  using assms
proof (induction ds arbitrary: n)
  case Nil
  show ?case by simp
next
  case (Cons c cs)
  let ?f = "\<lambda>n c. 10 * n + digit_val c"
  let ?n1 = "n * 10 + digit_val c"
  from Cons.prems have d: "is_digit c" and cs: "list_all is_digit cs" by simp_all
  have ge: "?n1 \<le> foldl ?f ?n1 cs" by (rule foldl_digits_ge)
  have f: "foldl ?f n (c # cs) = foldl ?f ?n1 cs" by (simp add: mult.commute)
  show ?case
  proof (cases "n \<ge> (2 ^ 64 - 1) div 10 + 1")
    case True
    then have "2 ^ 64 \<le> ?n1" by simp
    with ge have "\<not> foldl ?f ?n1 cs < 2 ^ 64" by simp
    with True d f show ?thesis by simp
  next
    case False
    then have n: "n < 2 ^ 64" by simp
    show ?thesis
    proof (cases "?n1 > 2 ^ 64 - 1")
      case True
      with ge have "\<not> foldl ?f ?n1 cs < 2 ^ 64" by simp
      with True False d f n show ?thesis by (simp add: Let_def)
    next
      case False2: False
      then have n1: "?n1 < 2 ^ 64" by simp
      from Cons.IH [OF cs, of ?n1] n1
      have "ParseUint_loop cs ?n1 =
              (if foldl ?f ?n1 cs < 2 ^ 64 then Inr (foldl ?f ?n1 cs) else Inl ErrRange)"
        using ge by (cases cs) auto
      with False False2 d f n show ?thesis by (simp add: Let_def)
    qed
  qed
qed

lemma ParseUint_digits1:
  assumes "digits1 ds"
  shows "ParseUint ds = (if digits_value ds < 2 ^ 64 then Inr (digits_value ds) else Inl ErrRange)"
proof -
  from assms have ne: "ds \<noteq> []" and a: "list_all is_digit ds" by (simp_all add: digits1_def)
  from ParseUint_loop_digits [OF a, of 0] ne show ?thesis
    by (simp add: ParseUint_def digits_value_def)
qed

lemma ParseInt_matches_integer:
  assumes "matches_integer s"
  shows "ParseInt s =
           (if - (2 ^ 63) \<le> integer_value s \<and> integer_value s < 2 ^ 63
            then Inr (integer_value s) else Inl ErrRange)"
proof -
  from assms obtain c r where s: "s = c # r"
    by (cases s) (auto simp: matches_integer_def strip_sign_def digits1_def)
  show ?thesis
  proof (cases "c = CHR ''-''")
    case True
    with assms s have d: "digits1 r" by (simp add: matches_integer_def strip_sign_def)
    from True s ParseUint_digits1 [OF d] show ?thesis
      by (auto simp: ParseInt_def integer_value_def Let_def)
  next
    case False
    with assms s have d: "digits1 s" by (simp add: matches_integer_def strip_sign_def)
    with s have "is_digit c" by (simp add: digits1_def)
    then have p: "c \<noteq> CHR ''+''" by (auto simp: is_digit_def)
    from False p s ParseUint_digits1 [OF d] show ?thesis
      by (auto simp: ParseInt_def integer_value_def Let_def)
  qed
qed

lemma infer_inferred:
  assumes "Type newVar = varType" and "Value newVar = VString raw"
  shows "inferred PF raw (GetVariables_infer PF newVar raw varType)"
    and "OriginalType (GetVariables_infer PF newVar raw varType) = varType"
    and "Name (GetVariables_infer PF newVar raw varType) = Name newVar"
  using assms matches_integer_no_dot [of raw] matches_float_dot [of raw] not_both [of raw]
    ParseInt_matches_integer [of raw]
  by (auto simp: inferred_def GetVariables_infer_def Let_def numericRegex_iff
      split: sum.splits if_splits)

lemma Split_nonempty: "Split s sep \<noteq> []"
  by (induction s) (auto split: list.splits)


lemma HasPrefix_append: "HasPrefix s p \<Longrightarrow> \<exists>r. s = p @ r"
  unfolding HasPrefix_def by (metis append_take_drop_id)





lemma GetVariables_entry_Emit:
  assumes "GetVariables_entry PF send u line s = (Emit v, s')"
  shows "\<exists>s1 w m. GetVariableType send u (Name v) s1 = ((OriginalType v, w, m, None), s')
      \<and> inferred PF (raw_value u line) v"
proof -
  let ?sp = "Split (TrimPrefix line (''VAR '' @ ups_Name u @ '' '')) dquote"
  let ?name = "TrimSuffix (?sp ! 0) '' ''"
  let ?raw = "Trim (?sp ! 1) '' ''"
  obtain d e1 s1 where
    gd: "GetVariableDescription send u ?name s = ((d, e1), s1)"
    by (metis surj_pair)
  obtain vt w m e2 s2 where
    gt: "GetVariableType send u ?name s1 = ((vt, w, m, e2), s2)"
    by (metis surj_pair)
  from assms gd gt have e1: "e1 = None" and e2: "e2 = None" and s2: "s2 = s'"
    and v: "v = GetVariables_infer PF
                 \<lparr>Name = ?name, Value = VString ?raw, Type = vt,
                  Description = d, Writeable = w, MaximumLength = m, OriginalType = []\<rparr>
                 ?raw vt"
    unfolding GetVariables_entry_def Let_def
    by (auto split: if_splits option.splits)
  have "inferred PF ?raw v" and "OriginalType v = vt" and "Name v = ?name"
    unfolding v by (simp_all add: infer_inferred)
  with gt e2 s2 show ?thesis
    unfolding raw_value_def by auto
qed

lemma GetVariables_loop_vars:
  "GetVariables_loop PF send u ls vars0 s = ((vars, err), s') \<Longrightarrow> v \<in> set vars \<Longrightarrow>
     v \<in> set vars0 \<or> (\<exists>line \<in> set ls. \<exists>s1 s2. GetVariables_entry PF send u line s1 = (Emit v, s2))"
proof (induction ls arbitrary: vars0 s)
  case Nil
  then show ?case by simp
next
  case (Cons line ls)
  obtain r s1 where e: "GetVariables_entry PF send u line s = (r, s1)"
    by (cases "GetVariables_entry PF send u line s")
  show ?case
  proof (cases r)
    case Skip
    with e Cons.prems have "GetVariables_loop PF send u ls vars0 s1 = ((vars, err), s')" by simp
    from Cons.IH [OF this Cons.prems(2)] show ?thesis by auto
  next
    case (Abort x)
    with e Cons.prems show ?thesis by simp
  next
    case (Emit nv)
    with e Cons.prems have "GetVariables_loop PF send u ls (vars0 @ [nv]) s1 = ((vars, err), s')" by simp
    from Cons.IH [OF this Cons.prems(2)] e Emit show ?thesis by auto
  qed
qed

lemma GetVariables_vars:
  assumes "GetVariables PF send u s = ((vars, err), u', s')" and "v \<in> set vars"
  shows "\<exists>resp s0. send (''LIST VAR '' @ quoteName (ups_Name u)) s = ((resp, None), s0)
     \<and> (\<exists>line \<in> set (slice resp 1 (length resp - 1)). \<exists>s1 s2. GetVariables_entry PF send u line s1 = (Emit v, s2))"
proof -
  obtain resp e s0 where snd: "send (''LIST VAR '' @ quoteName (ups_Name u)) s = ((resp, e), s0)"
    by (metis surj_pair)
  show ?thesis
  proof (cases e)
    case (Some a)
    with snd assms show ?thesis by (simp add: GetVariables_def)
  next
    case None
    show ?thesis
    proof (cases "length resp < 2")
      case True
      with snd None assms show ?thesis by (simp add: GetVariables_def)
    next
      case False
      obtain vs er s2 where l: "GetVariables_loop PF send u (slice resp 1 (length resp - 1)) [] s0 = ((vs, er), s2)"
        by (metis surj_pair)
      with snd None False assms have "vs = vars"
        by (auto simp: GetVariables_def split: option.splits)
      with l assms(2) GetVariables_loop_vars [OF l, of v] snd None show ?thesis by auto
    qed
  qed
qed

lemmas run_defs =
  GetVariables_def GetVariables_entry_def GetVariableDescription_def GetVariableType_def
  GetVariableType_line_def STRING_length_def GetVariables_infer_def quoteName_def ContainsAny_def
  TrimPrefix_def HasPrefix_def TrimSuffix_def HasSuffix_def Trim_def slice_def answers_def
  ups1_def no_floats_def numericRegex_MatchString_def strip_sign_def digits1_def decimal_def
  is_digit_def digit_val_def Contains_def Atoi_def ParseInt_def ParseUint_def Let_def

lemma run_listing1:
  "GetVariables no_floats (answers listing1) ups1 ()
     = (([var_charge, var_id], None), ups1\<lparr>Variables := [var_charge, var_id]\<rparr>, ())"
  by (simp add: run_defs listing1_def var_charge_def var_id_def)

lemma run_listing2:
  "GetVariables no_floats (answers listing2) ups1 ()
     = (([var_count], None), ups1\<lparr>Variables := [var_count]\<rparr>, ())"
  by (simp add: run_defs listing2_def var_count_def)

lemma GetVariables_entry_name:
  assumes "GetVariables_entry PF send u line s = (Emit v, s')"
  shows "Name v = listed_name u line"
proof -
  let ?sp = "Split (TrimPrefix line (''VAR '' @ ups_Name u @ '' '')) dquote"
  let ?name = "TrimSuffix (?sp ! 0) '' ''"
  let ?raw = "Trim (?sp ! 1) '' ''"
  obtain d e1 s1 where
    gd: "GetVariableDescription send u ?name s = ((d, e1), s1)"
    by (metis surj_pair)
  obtain vt w m e2 s2 where
    gt: "GetVariableType send u ?name s1 = ((vt, w, m, e2), s2)"
    by (metis surj_pair)
  from assms gd gt have
    v: "v = GetVariables_infer PF
                 \<lparr>Name = ?name, Value = VString ?raw, Type = vt,
                  Description = d, Writeable = w, MaximumLength = m, OriginalType = []\<rparr>
                 ?raw vt"
    unfolding GetVariables_entry_def Let_def
    by (auto split: if_splits option.splits)
  show ?thesis
    unfolding v listed_name_def by (simp add: infer_inferred)
qed

text \<open>
  Claim C4, as the code has it. Every variable that \<^verbatim>\<open>GetVariables\<close> returns comes from
  a line of the listing, between its first and its last line, and has the value and the
  type tag that the raw value of that line asks for: \<^verbatim>\<open>enabled\<close> and \<^verbatim>\<open>disabled\<close>
  give the booleans true and false; otherwise a text of the pattern \<^verbatim>\<open>^-?\d+$\<close> whose
  number fits a signed integer of 64 bits gives that integer, and a text of the pattern
  \<^verbatim>\<open>^-?\d+\.\d+$\<close> that \<^verbatim>\<open>strconv.ParseFloat\<close> accepts gives that float; a text of
  either pattern that does not convert, and every other text, stays a string with the tag
  \<^verbatim>\<open>STRING\<close>.
\<close>

theorem GetVariables_inferred:
  assumes "GetVariables ParseFloat send u s = ((vars, err), u', s')" and "v \<in> set vars"
  shows "\<exists>resp s0. send (''LIST VAR '' @ quoteName (ups_Name u)) s = ((resp, None), s0)
     \<and> (\<exists>line \<in> set (slice resp 1 (length resp - 1)).
           Name v = listed_name u line \<and> inferred ParseFloat (raw_value u line) v)"
proof -
  from GetVariables_vars [OF assms] obtain resp s0 line s1 s2 where
    "send (''LIST VAR '' @ quoteName (ups_Name u)) s = ((resp, None), s0)"
    and "line \<in> set (slice resp 1 (length resp - 1))"
    and e: "GetVariables_entry ParseFloat send u line s1 = (Emit v, s2)"
    by blast
  moreover from GetVariables_entry_Emit [OF e] have "inferred ParseFloat (raw_value u line) v"
    by blast
  moreover note GetVariables_entry_name [OF e]
  ultimately show ?thesis by blast
qed

text \<open>The theorem of claim C4 on the first variable of a listing of two.\<close>

theorem GetVariables_inferred_witness:
  "GetVariables no_floats (answers listing1) ups1 ()
     = (([var_charge, var_id], None), ups1\<lparr>Variables := [var_charge, var_id]\<rparr>, ())
   \<and> var_charge \<in> set [var_charge, var_id]
   \<and> (\<exists>resp s0. answers listing1 (''LIST VAR '' @ quoteName (ups_Name ups1)) () = ((resp, None), s0)
        \<and> (\<exists>line \<in> set (slice resp 1 (length resp - 1)).
              Name var_charge = listed_name ups1 line \<and>
              inferred no_floats (raw_value ups1 line) var_charge))"
proof -
  have h2: "var_charge \<in> set [var_charge, var_id]" by simp
  from GetVariables_inferred [OF run_listing1 h2] run_listing1 h2 show ?thesis by simp
qed

text \<open>
  Claim C4, as stated, fails: \<^verbatim>\<open>9223372036854775808\<close> matches \<^verbatim>\<open>^-?\d+$\<close> and does
  not fit 64 bits; the variable keeps the text as its value, with the tag \<^verbatim>\<open>STRING\<close>.
\<close>

theorem GetVariables_integer_counterexample:
  "matches_integer ''9223372036854775808''
   \<and> raw_value ups1 (''VAR ups1 n '' @ [dquote] @ ''9223372036854775808'' @ [dquote])
       = ''9223372036854775808''
   \<and> fst (GetVariables no_floats (answers listing2) ups1 ()) = ([var_count], None)
   \<and> Value var_count = VString ''9223372036854775808'' \<and> Type var_count = ''STRING''"
proof -
  have "matches_integer ''9223372036854775808''"
    by (simp add: matches_integer_def strip_sign_def digits1_def is_digit_def)
  moreover have "raw_value ups1 (''VAR ups1 n '' @ [dquote] @ ''9223372036854775808'' @ [dquote])
       = ''9223372036854775808''"
    by (simp add: raw_value_def ups1_def TrimPrefix_def HasPrefix_def Trim_def)
  ultimately show ?thesis
    by (simp add: run_listing2 var_count_def)
qed




section \<open>The two shapes of a TYPE response\<close>

text \<open>
  The variant of \<^verbatim>\<open>GetVariableType\<close> with the fallback parses both shapes of claim C1,
  for every device and every variable.
\<close>

lemma GetVariableType_shapes:
  "GetVariableType_line u v (''TYPE '' @ ups_Name u @ '' '' @ v @ '' '' @ ''RW STRING:20'')
     = (''STRING'', True, 20, None)"
  "GetVariableType_line u v (''TYPE '' @ ups_Name u @ '' '' @ v @ '' '' @ ''STRING:5'')
     = (''STRING'', False, 5, None)"
proof -
  have s20: "STRING_length ''STRING:20'' True = (''STRING'', True, 20, None)"
    and s5: "STRING_length ''STRING:5'' False = (''STRING'', False, 5, None)"
    by (simp_all add: STRING_length_def HasPrefix_def Atoi_def ParseInt_def ParseUint_def
        is_digit_def digit_val_def)
  have p: "\<And>rest. ''TYPE '' @ ups_Name u @ '' '' @ v @ '' '' @ rest
              = (''TYPE '' @ ups_Name u @ '' '' @ v @ '' '') @ rest"
    by simp
  show "GetVariableType_line u v (''TYPE '' @ ups_Name u @ '' '' @ v @ '' '' @ ''RW STRING:20'')
     = (''STRING'', True, 20, None)"
    unfolding GetVariableType_line_def p TrimPrefix_append by (simp add: s20)
  show "GetVariableType_line u v (''TYPE '' @ ups_Name u @ '' '' @ v @ '' '' @ ''STRING:5'')
     = (''STRING'', False, 5, None)"
    unfolding GetVariableType_line_def p TrimPrefix_append by (simp add: s5)
qed


section \<open>Properties of the read loop and of the commands\<close>

declare ReadResponse_loop.simps [simp del]

lemma ReadString_line:
  assumes "LF \<notin> set l" and "incoming cn = l @ [LF] @ rest"
  shows "ReadString cn = (Some (l @ [LF]), cn\<lparr>incoming := rest\<rparr>)"
proof -
  have "takeWhile (\<lambda>c. c \<noteq> LF) (l @ [LF] @ rest) = l"
    using assms(1) by (induction l) auto
  moreover have "dropWhile (\<lambda>c. c \<noteq> LF) (l @ [LF] @ rest) = LF # rest"
    using assms(1) by (induction l) auto
  ultimately show ?thesis
    using assms(2) by (simp add: ReadString_def)
qed

lemma TrimSuffix_LF: "TrimSuffix (l @ [LF]) [LF] = l"
  by (simp add: TrimSuffix_def HasSuffix_def)

lemma loop_last:
  assumes "LF \<notin> set l" and "incoming cn = l @ [LF] @ rest"
    and "l @ [LF] = endLine \<or> \<not> multi"
  shows "ReadResponse_loop endLine multi acc cn = (Inr (acc @ [l]), cn\<lparr>incoming := rest\<rparr>)"
  using assms(3)
  by (subst ReadResponse_loop.simps)
    (auto simp: ReadString_line [OF assms(1,2)] TrimSuffix_LF Let_def)

lemma loop_more:
  assumes "LF \<notin> set l" and "incoming cn = l @ [LF] @ rest"
    and "l @ [LF] \<noteq> endLine"
  shows "ReadResponse_loop endLine True acc cn
           = ReadResponse_loop endLine True (acc @ [l]) (cn\<lparr>incoming := rest\<rparr>)"
  using assms(3)
  by (subst ReadResponse_loop.simps)
    (auto simp: ReadString_line [OF assms(1,2)] TrimSuffix_LF Let_def)

lemma loop_listing:
  assumes "list_all (\<lambda>l. LF \<notin> set l) ls" and "LF \<notin> set e"
    and "list_all (\<lambda>l. l \<noteq> e) ls"
    and "incoming cn = wire (ls @ [e]) @ rest"
  shows "ReadResponse_loop (e @ [LF]) True acc cn = (Inr (acc @ ls @ [e]), cn\<lparr>incoming := rest\<rparr>)"
  using assms
proof (induction ls arbitrary: acc cn)
  case Nil
  then have "incoming cn = e @ [LF] @ rest" by (simp add: wire_def)
  from loop_last [OF Nil(2) this, of "e @ [LF]" True acc] show ?case by simp
next
  case (Cons l ls)
  then have i: "incoming cn = l @ [LF] @ (wire (ls @ [e]) @ rest)"
    and l: "LF \<notin> set l" and ne: "l @ [LF] \<noteq> e @ [LF]"
    by (simp_all add: wire_def)
  have "ReadResponse_loop (e @ [LF]) True acc cn
          = ReadResponse_loop (e @ [LF]) True (acc @ [l]) (cn\<lparr>incoming := wire (ls @ [e]) @ rest\<rparr>)"
    by (rule loop_more [OF l i ne])
  also have "\<dots> = (Inr ((acc @ [l]) @ ls @ [e]), cn\<lparr>incoming := wire (ls @ [e]) @ rest\<rparr>\<lparr>incoming := rest\<rparr>)"
    using Cons.prems by (intro Cons.IH) simp_all
  finally show ?case by simp
qed

lemma loop_complete:
  assumes "complete cmd ls" and "incoming cn = wire ls @ rest"
  shows "ReadResponse_loop
           (if HasPrefix (TrimSpace cmd) ''LIST '' then ''END '' @ TrimSpace cmd @ [LF] else ''OK'' @ [LF])
           (HasPrefix (TrimSpace cmd) ''LIST '') [] cn
         = (Inr ls, cn\<lparr>incoming := rest\<rparr>)"
proof (cases "HasPrefix (TrimSpace cmd) ''LIST ''")
  case True
  let ?e = "''END '' @ TrimSpace cmd"
  from assms(1) True have ne: "ls \<noteq> []" and la: "last ls = ?e"
    and all: "list_all (\<lambda>l. LF \<notin> set l) ls"
    and c: "list_all (\<lambda>l. l \<noteq> ?e) (butlast ls)"
    by (simp_all add: complete_def)
  from ne la have ls: "ls = butlast ls @ [?e]"
    by (metis append_butlast_last_id)
  from all have a: "list_all (\<lambda>l. LF \<notin> set l) (butlast ls)"
    by (auto simp: list_all_iff dest: in_set_butlastD)
  from all ne have "LF \<notin> set (last ls)"
    by (simp add: list_all_iff)
  with la have b: "LF \<notin> set ?e" by simp
  from assms(2) ls have i: "incoming cn = wire (butlast ls @ [?e]) @ rest" by simp
  from loop_listing [OF a b c i, of "[]"] ls True show ?thesis by simp
next
  case False
  with assms(1) obtain l where ls: "ls = [l]" and l: "LF \<notin> set l"
    by (cases ls) (auto simp: complete_def)
  from assms(2) ls have i: "incoming cn = l @ [LF] @ rest" by (simp add: wire_def)
  from loop_last [OF l i, of "''OK'' @ [LF]" False "[]"] False ls show ?thesis by simp
qed

lemma hd_Split: "hd (Split s sep) = takeWhile (\<lambda>c. c \<noteq> sep) s"
  using Split_nonempty [of _ sep] by (induction s) (auto split: list.splits)

lemma ERR_code_token:
  assumes "HasPrefix line ''ERR ''"
  shows "ERR_code line = ERR_token line"
proof -
  from HasPrefix_append [OF assms] obtain r where r: "line = ''ERR '' @ r" ..
  then have s: "Split line space = ''ERR'' # Split r space" by simp
  obtain p ps where p: "Split r space = p # ps"
    using Split_nonempty [of r space] by (cases "Split r space") auto
  with hd_Split [of r space] have "p = takeWhile (\<lambda>c. c \<noteq> space) r" by simp
  with s p r show ?thesis by (simp add: ERR_code_def ERR_token_def)
qed

lemma SendCommandWithContext_read:
  assumes "conn c = Some cn" and "\<not> write_fails cn" and "\<not> deadline_fails cn"
    and "\<not> done_at_start ctx" and "\<not> done_while_reading ctx"
    and "incoming cn = wire ls @ rest" and "complete cmd ls"
  shows "SendCommandWithContext errs ctx cmd c =
     (if HasPrefix (hd ls) ''ERR '' then
        (([], Some (ServerError (errorForMessage errs (ERR_code (hd ls))))),
         c\<lparr>conn := Some (cn\<lparr>written := written cn @ cmd @ [LF], incoming := rest\<rparr>)\<rparr>)
      else ((ls, None), c\<lparr>conn := Some (cn\<lparr>written := written cn @ cmd @ [LF], incoming := rest\<rparr>)\<rparr>))"
proof -
  let ?cn1 = "cn\<lparr>written := written cn @ cmd @ [LF]\<rparr>"
  have i: "incoming ?cn1 = wire ls @ rest" using assms(6) by simp
  have ne: "ls \<noteq> []" using assms(7) by (simp add: complete_def)
  then have hd: "ls ! 0 = hd ls" and len: "length ls > 0" by (simp_all add: hd_conv_nth)
  have "readResponseWithContext ctx
          (if HasPrefix (TrimSpace cmd) ''LIST '' then ''END '' @ TrimSpace cmd @ [LF] else ''OK'' @ [LF])
          (HasPrefix (TrimSpace cmd) ''LIST '') ?cn1
        = (Inr ls, ?cn1\<lparr>incoming := rest\<rparr>)"
    using assms(3,5) loop_complete [OF assms(7) i]
    by (simp add: readResponseWithContext_def)
  then show ?thesis
    using assms(1,2,4) hd len
    by (simp add: SendCommandWithContext_def Let_def)
qed

text \<open>
  When the response that \<^verbatim>\<open>SendCommand\<close> reads is complete and its first line begins
  with \<^verbatim>\<open>ERR \<close>, the command returns no lines and the typed error that
  \<^verbatim>\<open>errorForMessage\<close> gives for the token between \<^verbatim>\<open>ERR \<close> and the next space; for a
  token that the taxonomy does not have, that error is the unknown-command failure.
\<close>

lemma SendCommand_ERR:
  assumes "conn c = Some cn" and "\<not> write_fails cn" and "\<not> deadline_fails cn"
    and "incoming cn = wire ls @ rest" and "complete cmd ls" and "HasPrefix (hd ls) ''ERR ''"
  shows "SendCommand errs cmd c =
           (([], Some (ServerError (errorForMessage errs (ERR_token (hd ls))))),
            c\<lparr>conn := Some (cn\<lparr>written := written cn @ cmd @ [LF], incoming := rest\<rparr>)\<rparr>)
         \<and> (map_of (errorNames errs) (ERR_token (hd ls)) = None \<longrightarrow>
              errorForMessage errs (ERR_token (hd ls)) = ErrUnknownCommand errs)"
proof -
  have "\<not> done_at_start Background" and "\<not> done_while_reading Background"
    by (simp_all add: Background_def)
  from SendCommandWithContext_read [OF assms(1,2,3) this assms(4,5), of errs] assms(6)
  show ?thesis
    by (simp add: SendCommand_def ERR_code_token errorForMessage_def)
qed

text \<open>The same on the response \<^verbatim>\<open>ERR ACCESS-DENIED\<close> to a command of one line.\<close>

lemma SendCommand_ERR_example:
  "conn (client0 (''ERR ACCESS-DENIED'' @ [LF])) = Some (conn0 (''ERR ACCESS-DENIED'' @ [LF]))
   \<and> \<not> write_fails (conn0 (''ERR ACCESS-DENIED'' @ [LF]))
   \<and> \<not> deadline_fails (conn0 (''ERR ACCESS-DENIED'' @ [LF]))
   \<and> incoming (conn0 (''ERR ACCESS-DENIED'' @ [LF])) = wire [''ERR ACCESS-DENIED''] @ []
   \<and> complete ''USERNAME x'' [''ERR ACCESS-DENIED'']
   \<and> HasPrefix (hd [''ERR ACCESS-DENIED'']) ''ERR ''
   \<and> ERR_token ''ERR ACCESS-DENIED'' = ''ACCESS-DENIED''
   \<and> SendCommand errors0 ''USERNAME x'' (client0 (''ERR ACCESS-DENIED'' @ [LF]))
       = (([], Some (ServerError 1)),
          (client0 (''ERR ACCESS-DENIED'' @ [LF]))
            \<lparr>conn := Some ((conn0 (''ERR ACCESS-DENIED'' @ [LF]))
                             \<lparr>written := ''USERNAME x'' @ [LF], incoming := []\<rparr>)\<rparr>)"
proof -
  let ?in = "''ERR ACCESS-DENIED'' @ [LF]"
  have h1: "conn (client0 ?in) = Some (conn0 ?in)" by (simp add: client0_def)
  have h2: "\<not> write_fails (conn0 ?in)" by (simp add: conn0_def)
  have h3: "\<not> deadline_fails (conn0 ?in)" by (simp add: conn0_def)
  have h4: "incoming (conn0 ?in) = wire [''ERR ACCESS-DENIED''] @ []" by (simp add: conn0_def wire_def)
  have h5: "complete ''USERNAME x'' [''ERR ACCESS-DENIED'']"
    by (simp add: complete_def HasPrefix_def TrimSpace_def is_space_def)
  have h6: "HasPrefix (hd [''ERR ACCESS-DENIED'']) ''ERR ''" by (simp add: HasPrefix_def)
  have t: "ERR_token ''ERR ACCESS-DENIED'' = ''ACCESS-DENIED''" by (simp add: ERR_token_def)
  have e: "errorForMessage errors0 ''ACCESS-DENIED'' = 1" by (simp add: errorForMessage_def errors0_def)
  from SendCommand_ERR [OF h1 h2 h3 h4 h5 h6, of errors0] h1 h2 h3 h4 h5 h6 t e
  show ?thesis by (simp add: conn0_def)
qed

text \<open>
  Claim C7 on a listing command. The server answers \<^verbatim>\<open>ERR UNKNOWN-UPS\<close> and nothing
  more. After \<^verbatim>\<open>GET NUMLOGINS nosuch\<close> the line is the whole response, and
  \<^verbatim>\<open>SendCommand\<close> returns the typed error of \<^verbatim>\<open>UNKNOWN-UPS\<close>. After
  \<^verbatim>\<open>LIST VAR nosuch\<close> the read loop takes the line, goes on reading for the line
  \<^verbatim>\<open>END LIST VAR nosuch\<close> and ends in a read error at the deadline:
  \<^verbatim>\<open>SendCommand\<close> returns ``failed to read response'' and not the typed error.
\<close>

theorem SendCommand_LIST_ERR:
  "SendCommand errors0 ''GET NUMLOGINS nosuch'' (client0 (''ERR UNKNOWN-UPS'' @ [LF]))
     = (([], Some (ServerError 2)),
        (client0 [])\<lparr>conn := Some ((conn0 [])\<lparr>written := ''GET NUMLOGINS nosuch'' @ [LF]\<rparr>)\<rparr>)
   \<and> SendCommand errors0 ''LIST VAR nosuch'' (client0 (''ERR UNKNOWN-UPS'' @ [LF]))
     = (([], Some (ReadFailed ReadError)),
        (client0 [])\<lparr>conn := Some ((conn0 [])\<lparr>written := ''LIST VAR nosuch'' @ [LF]\<rparr>)\<rparr>)"
  by (simp add: SendCommand_def SendCommandWithContext_def
      readResponseWithContext_def ReadResponse_loop.simps ReadString_def ERR_code_def
      errorForMessage_def
      Background_def client0_def conn0_def metrics0_def errors0_def TrimSpace_def is_space_def
      HasPrefix_def TrimSuffix_def HasSuffix_def Let_def)





text \<open>
  A listing of one variable through the session: the bytes of the three responses are on
  the connection, and \<^verbatim>\<open>GetVariables\<close> reads them with \<^verbatim>\<open>SendCommand\<close>.
\<close>

lemma run_wire:
  "fst (GetVariables no_floats (SendCommand errors0) ups1 (client0 (wire reply1 @ wire reply2)))
     = ([\<lparr>Name = ''b.c'', Value = VInt 100, Type = ''INTEGER'', Description = ''charge'',
          Writeable = True, MaximumLength = 0, OriginalType = ''NUMBER''\<rparr>], None)"
  by (simp add: run_defs SendCommand_def SendCommandWithContext_def
      readResponseWithContext_def ReadResponse_loop.simps ReadString_def
      Background_def client0_def conn0_def metrics0_def errors0_def TrimSpace_def is_space_def
      wire_def reply1_def reply2_def)


section \<open>The counter of received bytes\<close>

text \<open>
  \<^verbatim>\<open>SendCommandWithContext\<close>, and with it \<^verbatim>\<open>SendCommand\<close>, never changes the
  counters; \<^verbatim>\<open>sendCommandUnsafe\<close> adds the length of each line plus one to
  \<^verbatim>\<open>BytesReceived\<close>.
\<close>

lemma SendCommandWithContext_metrics:
  "metrics (snd (SendCommandWithContext errs ctx cmd c)) = metrics c"
  by (auto simp: SendCommandWithContext_def Let_def split: option.splits prod.splits sum.splits)

lemma sendCommandUnsafe_BytesReceived:
  assumes "sendCommandUnsafe errs cmd c = ((resp, None), c')" and "metrics c = Some m"
  shows "\<exists>m'. metrics c' = Some m' \<and>
           BytesReceived m' = fold (\<lambda>line b. b + of_nat (length line + 1)) resp (BytesReceived m)"
  using assms
  by (auto simp: sendCommandUnsafe_def add_Sent_def add_BytesReceived_def add_CommandsFailed_def
      Let_def split: option.splits if_splits prod.splits sum.splits)

text \<open>
  Claim C6 on \<^verbatim>\<open>SendCommand\<close>: the command \<^verbatim>\<open>VER\<close> reads the line \<^verbatim>\<open>upsd 2.8\<close>,
  eight bytes and the newline, and \<^verbatim>\<open>BytesReceived\<close> stays 0 (as do the other
  counters), where \<^verbatim>\<open>sendCommandUnsafe\<close> on the same client counts 9.
\<close>

theorem SendCommand_BytesReceived:
  "SendCommand errors0 ''VER'' (client0 (''upsd 2.8'' @ [LF]))
     = (([''upsd 2.8''], None),
        \<lparr>Version = [], ProtocolVersion = [],
         conn = Some \<lparr>incoming = [], written = ''VER'' @ [LF], write_fails = False,
                      deadline_fails = False, close_fails = False\<rparr>,
         UseTLS = False,
         metrics = Some \<lparr>CommandsSent = 0, CommandsFailed = 0, BytesSent = 0, BytesReceived = 0,
                         Reconnects = 0\<rparr>\<rparr>)
   \<and> sendCommandUnsafe errors0 ''VER'' (client0 (''upsd 2.8'' @ [LF]))
     = (([''upsd 2.8''], None),
        \<lparr>Version = [], ProtocolVersion = [],
         conn = Some \<lparr>incoming = [], written = ''VER'' @ [LF], write_fails = False,
                      deadline_fails = False, close_fails = False\<rparr>,
         UseTLS = False,
         metrics = Some \<lparr>CommandsSent = 1, CommandsFailed = 0, BytesSent = 4, BytesReceived = 9,
                         Reconnects = 0\<rparr>\<rparr>)"
  by (simp add: SendCommand_def SendCommandWithContext_def sendCommandUnsafe_def
      readResponseWithContext_def ReadResponse_def ReadResponse_loop.simps ReadString_def
      Background_def client0_def conn0_def metrics0_def errors0_def TrimSpace_def is_space_def
      HasPrefix_def TrimSuffix_def HasSuffix_def add_Sent_def add_BytesReceived_def Let_def)

section \<open>Properties of the pool\<close>

lemma NewPool_inv: "NewPool config = Inr p \<Longrightarrow> pool_inv p"
  by (auto simp: NewPool_def pool_inv_def Let_def split: if_splits)

lemma Get_create_inv: "pool_inv p \<Longrightarrow> pool_inv (snd (Get_create env p))"
  by (auto simp: Get_create_def pool_inv_def Let_def split: list.splits option.splits)

lemma Get_create_maxSize: "maxSize (snd (Get_create env p)) = maxSize p"
  by (auto simp: Get_create_def Let_def split: list.splits option.splits)

lemma Get_inv: "pool_inv p \<Longrightarrow> pool_inv (snd (Get env p))"
proof -
  assume i: "pool_inv p"
  show ?thesis
  proof (cases "clients p")
    case Nil
    with i show ?thesis by (simp add: Get_def Get_create_inv)
  next
    case (Cons c rest)
    with i have 1: "pool_inv (p\<lparr>clients := rest\<rparr>)"
      and 2: "pool_inv (p\<lparr>clients := rest, activeClients := activeClients p - 1\<rparr>)"
      by (auto simp: pool_inv_def)
    with i Cons show ?thesis by (simp add: Get_def Get_create_inv)
  qed
qed

lemma Get_maxSize: "maxSize (snd (Get env p)) = maxSize p"
  by (auto simp: Get_def Get_create_maxSize split: list.splits)

lemma Put_inv: "pool_inv p \<Longrightarrow> pool_inv (snd (Put client p))"
  by (auto simp: Put_def pool_inv_def split: option.splits)

lemma Put_maxSize: "maxSize (snd (Put client p)) = maxSize p"
  by (auto simp: Put_def split: option.splits)

lemma Pool_Close_inv: "pool_inv p \<Longrightarrow> pool_inv (snd (Pool_Close p))"
  by (auto simp: Pool_Close_def pool_inv_def)

lemma Pool_Close_maxSize: "maxSize (snd (Pool_Close p)) = maxSize p"
  by (auto simp: Pool_Close_def)

lemma call_inv: "pool_inv p \<Longrightarrow> pool_inv (call p c)"
  by (cases c) (simp_all add: Get_inv Put_inv Pool_Close_inv)

lemma call_maxSize: "maxSize (call p c) = maxSize p"
  by (cases c) (simp_all add: Get_maxSize Put_maxSize Pool_Close_maxSize)

lemma calls_inv: "pool_inv p \<Longrightarrow> pool_inv (calls p cs)"
  unfolding calls_def by (induction cs arbitrary: p) (simp_all add: call_inv)

lemma calls_maxSize: "maxSize (calls p cs) = maxSize p"
  unfolding calls_def by (induction cs arbitrary: p) (simp_all add: call_maxSize)

text \<open>
  Claim C2, as the code has it. After any sequence of \<^verbatim>\<open>Get\<close>, \<^verbatim>\<open>Put\<close> and
  \<^verbatim>\<open>Close\<close> calls on a pool made by \<^verbatim>\<open>NewPool\<close>, each of the two numbers that
  \<^verbatim>\<open>Stats\<close> returns, the number of idle sessions in the queue and the counter
  \<^verbatim>\<open>activeClients\<close>, is at most the maximum size of the pool (10 when the configured
  maximum is not positive). The counter counts the sessions the pool has made and not
  closed, idle ones included.
\<close>

theorem Pool_Stats_bounds:
  assumes "NewPool config = Inr p0"
  shows "fst (Stats (calls p0 cs)) \<le> maxSize p0 \<and> snd (Stats (calls p0 cs)) \<le> maxSize p0
         \<and> maxSize p0 = (if MaxSize config \<le> 0 then 10 else MaxSize config)"
proof -
  from calls_inv [OF NewPool_inv [OF assms], of cs] calls_maxSize [of p0 cs]
  have "fst (Stats (calls p0 cs)) \<le> maxSize p0 \<and> snd (Stats (calls p0 cs)) \<le> maxSize p0"
    by (simp add: pool_inv_def Stats_def)
  moreover from assms have "maxSize p0 = (if MaxSize config \<le> 0 then 10 else MaxSize config)"
    by (auto simp: NewPool_def Let_def split: if_splits)
  ultimately show ?thesis by simp
qed

lemma NewPool_config1: "NewPool config1 = Inr pool1"
  by (simp add: NewPool_def config1_def pool1_def Let_def)

lemma Get_pool1:
  "Get (dials (client0 [])) pool1 = (Returned (Some (add_Reconnects (client0 []))) None, pool1\<lparr>activeClients := 1\<rparr>)"
  by (simp add: Get_def Get_create_def pool1_def dials_def Let_def)

lemma Put_pool1:
  "Put (Some (add_Reconnects (client0 []))) (pool1\<lparr>activeClients := 1\<rparr>)
     = (None, pool1\<lparr>activeClients := 1, clients := [add_Reconnects (client0 [])]\<rparr>)"
  by (simp add: Put_def pool1_def)

lemma calls_pool1:
  "calls pool1 [Call_Get (dials (client0 [])), Call_Put (Some (add_Reconnects (client0 [])))]
     = pool1\<lparr>activeClients := 1, clients := [add_Reconnects (client0 [])]\<rparr>"
  by (simp add: calls_def Get_pool1 Put_pool1)

text \<open>The theorem of claim C2 on a pool of maximum size 1, after a \<^verbatim>\<open>Get\<close> and a \<^verbatim>\<open>Put\<close>.\<close>

theorem Pool_Stats_bounds_witness:
  "NewPool config1 = Inr pool1
   \<and> Stats (calls pool1 [Call_Get (dials (client0 [])), Call_Put (Some (add_Reconnects (client0 [])))]) = (1, 1)
   \<and> fst (Stats (calls pool1 [Call_Get (dials (client0 [])), Call_Put (Some (add_Reconnects (client0 [])))])) \<le> maxSize pool1
   \<and> snd (Stats (calls pool1 [Call_Get (dials (client0 [])), Call_Put (Some (add_Reconnects (client0 [])))])) \<le> maxSize pool1
   \<and> maxSize pool1 = 1"
proof -
  have s: "Stats (calls pool1 [Call_Get (dials (client0 [])), Call_Put (Some (add_Reconnects (client0 [])))]) = (1, 1)"
    by (simp add: calls_pool1 Stats_def)
  from Pool_Stats_bounds [OF NewPool_config1, of "[Call_Get (dials (client0 [])), Call_Put (Some (add_Reconnects (client0 [])))]"]
    NewPool_config1 s
  show ?thesis by (simp add: config1_def pool1_def)
qed

text \<open>
  Claim C2, as stated, fails: on a pool of maximum size 1, a \<^verbatim>\<open>Get\<close> makes a session
  and a \<^verbatim>\<open>Put\<close> of that session queues it; \<^verbatim>\<open>Stats\<close> then returns one idle and one
  active session, two in sum.
\<close>

theorem Pool_Stats_sum_counterexample:
  "NewPool config1 = Inr pool1
   \<and> fst (Get (dials (client0 [])) pool1) = Returned (Some (add_Reconnects (client0 []))) None
   \<and> Stats (calls pool1 [Call_Get (dials (client0 [])), Call_Put (Some (add_Reconnects (client0 [])))]) = (1, 1)
   \<and> maxSize (calls pool1 [Call_Get (dials (client0 [])), Call_Put (Some (add_Reconnects (client0 [])))]) = 1
   \<and> \<not> (fst (Stats (calls pool1 [Call_Get (dials (client0 [])), Call_Put (Some (add_Reconnects (client0 [])))]))
         + snd (Stats (calls pool1 [Call_Get (dials (client0 [])), Call_Put (Some (add_Reconnects (client0 [])))]))
         \<le> maxSize (calls pool1 [Call_Get (dials (client0 [])), Call_Put (Some (add_Reconnects (client0 [])))]))"
  by (simp add: NewPool_config1 calls_pool1 Get_pool1 Stats_def) (simp add: pool1_def)

text \<open>
  A \<^verbatim>\<open>Get\<close> to which no client is handed while it waits returns no client with a nil
  connection (the connection of a client just made is not nil).
\<close>

lemma Get_first_receive_alive:
  assumes "Get env p = (Returned (Some cl) None, p')"
    and "released env = None"
    and "case connected env of None \<Rightarrow> True | Some c \<Rightarrow> conn c \<noteq> None"
    and "activeClients p \<le> maxSize p"
  shows "conn cl \<noteq> None"
  using assms
  by (auto simp: Get_def Get_create_def add_Reconnects_def Let_def
      split: if_splits list.splits option.splits)

text \<open>
  Claim C10 on a waiting \<^verbatim>\<open>Get\<close>. The pool of maximum size 1 has made its one session
  and the queue is empty, so \<^verbatim>\<open>Get\<close> waits on the channel; another goroutine puts a
  client whose connection is nil, and \<^verbatim>\<open>Get\<close> returns that client. The same client found
  in the queue by the first receive is dropped, and a session is made in its place.
\<close>

theorem Get_waiting_returns_closed_client:
  "conn closed_client = None
   \<and> Get (dials (client0 [])) pool1
       = (Returned (Some (add_Reconnects (client0 []))) None, pool1\<lparr>activeClients := 1\<rparr>)
   \<and> Get (receives closed_client) (pool1\<lparr>activeClients := 1\<rparr>)
       = (Returned (Some closed_client) None, pool1\<lparr>activeClients := 1\<rparr>)
   \<and> Get (dials (client0 [])) (pool1\<lparr>activeClients := 1, clients := [closed_client]\<rparr>)
       = (Returned (Some (add_Reconnects (client0 []))) None, pool1\<lparr>activeClients := 1, clients := []\<rparr>)"
  by (simp add: Get_def Get_create_def pool1_def dials_def receives_def closed_client_def Let_def)

end
